theory Spec2Isabelle
  imports Complex_Main "HOL-Library.Multiset"
begin

section \<open>Exceptions and values\<close>

text \<open>
  Python exceptions are values. Only the class matters to the handlers of the program
  (\<open>except ValueError\<close> before \<open>except Exception\<close>); every class below derives from
  \<open>Exception\<close>. \<open>ConnectionFailure\<close> and \<open>MessageTimeout\<close> stand for what a
  call to the OBS WebSocket may raise.
\<close>

datatype exn = ValueError | KeyError | IndexError | AttributeError | TypeError
  | ConnectionFailure | MessageTimeout

text \<open>
  A time of a segment is a number of seconds or one of the literals \<open>full\<close>, \<open>end\<close>,
  which \<open>to_seconds\<close> passes through. Python floats are modelled as exact rationals:
  rounding of floating-point arithmetic is outside the model.
\<close>

datatype time_val = Seconds rat | Marker string

text \<open>The requests that the program sends to OBS, and what comes back.\<close>

datatype request =
    GetCurrentProgramScene
  | GetSceneList
  | SetCurrentProgramScene string
  | SetCurrentPreviewScene string
  | GetSceneItemId string string
  | SetSceneItemEnabled string int bool
  | SetInputMute string bool
  | SetInputSettings string string
  | SetInputVolume string rat
  | SetMediaInputCursor string int
  | TriggerMediaInputAction string string
  | GetMediaInputStatus string

datatype response =
    Done
  | SceneName string
  | Scenes "string list"
  | SceneItemId int
  | MediaStatus "int option" "int option"

section \<open>modules/utils.py: TimeConverter\<close>

definition is_digit :: "char \<Rightarrow> bool" where
  "is_digit c = (c \<in> set ''0123456789'')"

definition digit_val :: "char \<Rightarrow> int" where
  "digit_val c = of_char c - 48"

definition int_of_digits :: "string \<Rightarrow> int" where
  "int_of_digits ds = foldl (\<lambda>a c. 10 * a + digit_val c) 0 ds"

text \<open>
  \<open>datetime.strptime\<close> turns each of \<open>%H\<close>, \<open>%M\<close>, \<open>%S\<close> into a regular expression
  that accepts one digit, or two digits below a bound (24, 60 and 62). The fields are
  separated by literal characters that are no digits, so a field is the text up to the next
  separator. Strings are read as ASCII.
\<close>

definition directive :: "int \<Rightarrow> string \<Rightarrow> int option" where
  "directive bound ds =
     (if list_all is_digit ds \<and> (length ds = 1 \<or> (length ds = 2 \<and> int_of_digits ds < bound))
      then Some (int_of_digits ds) else None)"

text \<open>\<open>%f\<close>: one to six digits, padded with zeros on the right to microseconds.\<close>

definition directive_f :: "string \<Rightarrow> int option" where
  "directive_f ds =
     (if list_all is_digit ds \<and> 1 \<le> length ds \<and> length ds \<le> 6
      then Some (int_of_digits (ds @ replicate (6 - length ds) (CHR ''0''))) else None)"

definition split_at :: "char \<Rightarrow> string \<Rightarrow> (string \<times> string) option" where
  "split_at c s =
     (if c \<in> set s
      then Some (takeWhile (\<lambda>x. x \<noteq> c) s, tl (dropWhile (\<lambda>x. x \<noteq> c) s))
      else None)"

text \<open>
  The constructor of \<open>datetime\<close> refuses a second above 59 with a \<open>ValueError\<close>, as the
  parser does for a string that does not match.
\<close>

definition datetime_of :: "int option \<Rightarrow> int option \<Rightarrow> int option \<Rightarrow> int option
    \<Rightarrow> exn + (int \<times> int \<times> int \<times> int)" where
  "datetime_of h m s f =
     (case (h, m, s, f) of
        (Some hh, Some mm, Some ss, Some us) \<Rightarrow>
          (if ss \<le> 59 then Inr (hh, mm, ss, us) else Inl ValueError)
      | _ \<Rightarrow> Inl ValueError)"

text \<open>\<open>strptime(s, "%H:%M:%S.%f")\<close>\<close>

definition strptime_hmsf :: "string \<Rightarrow> exn + (int \<times> int \<times> int \<times> int)" where
  "strptime_hmsf str =
     (case split_at (CHR '':'') str of None \<Rightarrow> Inl ValueError
      | Some (h, r1) \<Rightarrow>
     (case split_at (CHR '':'') r1 of None \<Rightarrow> Inl ValueError
      | Some (m, r2) \<Rightarrow>
     (case split_at (CHR ''.'') r2 of None \<Rightarrow> Inl ValueError
      | Some (s, f) \<Rightarrow>
          datetime_of (directive 24 h) (directive 60 m) (directive 62 s) (directive_f f))))"

text \<open>\<open>strptime(s, "%H:%M:%S")\<close>\<close>

definition strptime_hms :: "string \<Rightarrow> exn + (int \<times> int \<times> int \<times> int)" where
  "strptime_hms str =
     (case split_at (CHR '':'') str of None \<Rightarrow> Inl ValueError
      | Some (h, r1) \<Rightarrow>
     (case split_at (CHR '':'') r1 of None \<Rightarrow> Inl ValueError
      | Some (m, s) \<Rightarrow>
          datetime_of (directive 24 h) (directive 60 m) (directive 62 s) (Some 0)))"

definition to_seconds :: "string \<Rightarrow> exn + time_val" where
  "to_seconds time_str =
     (if time_str \<in> set [''full'', ''end''] then Inr (Marker time_str)
      else case strptime_hmsf time_str of
        Inr (h, m, s, us) \<Rightarrow>
          Inr (Seconds (of_int (h * 3600 + m * 60 + s) + of_int us / 1000000))
      | Inl ValueError \<Rightarrow>
          (case strptime_hms time_str of
             Inr (h, m, s, us) \<Rightarrow> Inr (Seconds (of_int (h * 3600 + m * 60 + s)))
           | Inl e \<Rightarrow> Inl e)
      | Inl e \<Rightarrow> Inl e)"

section \<open>modules/models.py: VideoSegment\<close>

record video_segment =
  file_path :: string
  start_time :: time_val
  end_time :: time_val
  volume_multiplier :: rat

section \<open>modules/video_library.py: VideoLibrary\<close>

text \<open>
  The catalog as the program reads it from \<open>video_event.json\<close>: a segment is a dictionary
  with the keys \<open>start_time\<close> and \<open>end_time\<close>, a video one with \<open>file_name\<close>, an optional
  \<open>volume_multiplier\<close> and \<open>tags\<close>, a dictionary from tag names to lists of segments
  (an association list in the order of the file).
\<close>

record segment_spec =
  start_str :: string
  end_str :: string

record video =
  file_name :: string
  volume_multiplier_opt :: "rat option"
  tags :: "(string \<times> segment_spec list) list"

type_synonym pool = "(video \<times> segment_spec) list"

record video_library =
  videos :: "video list"
  raw_dir :: string
  clips_dir :: string
  tag_cache :: "string \<rightharpoonup> pool"
  shuffle_pools :: "string \<rightharpoonup> pool"

text \<open>
  What the program takes from outside: the stream of numbers that the global random
  generator draws (position \<open>p\<close> of the stream is the \<open>p\<close>-th draw), the file system,
  the path functions of \<open>os.path\<close>, which depend on the platform, the floating-point
  computation \<open>int(start_time * 1000)\<close> of the cursor in milliseconds, whose rounding the
  exact seconds of the model do not give (\<open>int(1.005 * 1000)\<close> is 1004), and the OBS
  WebSocket: \<open>obs tr rq\<close> is what the call \<open>rq\<close> returns or raises after the calls \<open>tr\<close>.
\<close>

record env =
  random_stream :: "nat \<Rightarrow> nat"
  path_exists :: "string \<Rightarrow> bool"
  abspath_join :: "string \<Rightarrow> string \<Rightarrow> string"
  file_root_of :: "string \<Rightarrow> string"
  cursor_ms :: "rat \<Rightarrow> int"
  obs :: "request list \<Rightarrow> request \<Rightarrow> exn + response"

text \<open>\<open>_build_tag_cache\<close>: the three nested loops.\<close>

fun cache_segments :: "video \<Rightarrow> string \<Rightarrow> segment_spec list \<Rightarrow> (string \<rightharpoonup> pool) \<Rightarrow> (string \<rightharpoonup> pool)" where
  "cache_segments v tag_name [] cache = cache"
| "cache_segments v tag_name (seg # segs) cache =
     cache_segments v tag_name segs
       (cache(tag_name \<mapsto> (case cache tag_name of None \<Rightarrow> [] | Some xs \<Rightarrow> xs) @ [(v, seg)]))"

fun cache_tags :: "video \<Rightarrow> (string \<times> segment_spec list) list \<Rightarrow> (string \<rightharpoonup> pool) \<Rightarrow> (string \<rightharpoonup> pool)" where
  "cache_tags v [] cache = cache"
| "cache_tags v ((tag_name, segments) # rest) cache =
     cache_tags v rest
       (cache_segments v tag_name segments
          (if tag_name \<notin> dom cache then cache(tag_name \<mapsto> []) else cache))"

fun cache_videos :: "video list \<Rightarrow> (string \<rightharpoonup> pool) \<Rightarrow> (string \<rightharpoonup> pool)" where
  "cache_videos [] cache = cache"
| "cache_videos (v # vs) cache = cache_videos vs (cache_tags v (tags v) cache)"

definition build_tag_cache :: "video list \<Rightarrow> (string \<rightharpoonup> pool)" where
  "build_tag_cache vs = cache_videos vs Map.empty"

text \<open>The end of \<open>__init__\<close>: the cache is built and the shuffle pools are empty.\<close>

definition new_library :: "video list \<Rightarrow> string \<Rightarrow> string \<Rightarrow> video_library" where
  "new_library vs raw clips =
     \<lparr>videos = vs, raw_dir = raw, clips_dir = clips,
      tag_cache = build_tag_cache vs, shuffle_pools = Map.empty\<rparr>"

text \<open>
  \<open>random.shuffle\<close>: for \<open>i\<close> from \<open>len - 1\<close> down to 1, draw \<open>j\<close> below \<open>i + 1\<close> and
  swap the elements at \<open>i\<close> and \<open>j\<close>. The draw at position \<open>p\<close> of the stream is reduced
  below \<open>i + 1\<close>.
\<close>

fun shuffle_from :: "(nat \<Rightarrow> nat) \<Rightarrow> nat \<Rightarrow> nat \<Rightarrow> 'a list \<Rightarrow> 'a list" where
  "shuffle_from r p 0 xs = xs"
| "shuffle_from r p (Suc i) xs =
     (let j = r p mod (Suc (Suc i))
      in shuffle_from r (Suc p) i (xs[Suc i := xs ! j, j := xs ! Suc i]))"

definition shuffle :: "(nat \<Rightarrow> nat) \<Rightarrow> nat \<Rightarrow> 'a list \<Rightarrow> 'a list" where
  "shuffle r p xs = shuffle_from r p (length xs - 1) xs"

text \<open>
  Lines 103 to 107: the path of the clip of a pair, its name made of the root of the file
  name and the two time strings with \<open>-\<close> for \<open>:\<close>.
\<close>

definition clipped_path_of :: "env \<Rightarrow> video_library \<Rightarrow> video \<times> segment_spec \<Rightarrow> string" where
  "clipped_path_of os lib chosen =
     (case chosen of (chosen_video, chosen_segment) \<Rightarrow>
      let start_s = start_str chosen_segment; end_s = end_str chosen_segment;
          safe_start = map (\<lambda>c. if c = CHR '':'' then CHR ''-'' else c) start_s;
          safe_end = (if end_s \<notin> set [''full'', ''end'']
                      then map (\<lambda>c. if c = CHR '':'' then CHR ''-'' else c) end_s else ''end'');
          clipped_filename =
            file_root_of os (file_name chosen_video) @ ''_'' @ safe_start @ ''_'' @ safe_end @ ''.mkv''
      in abspath_join os (clips_dir lib) clipped_filename)"

text \<open>
  Lines 94 to 112: the chosen pair becomes a \<open>VideoSegment\<close>, of the clip when one is on
  disk. A time string that does not parse raises.
\<close>

definition resolve :: "env \<Rightarrow> video_library \<Rightarrow> video \<times> segment_spec \<Rightarrow> exn + video_segment" where
  "resolve os lib chosen =
     (case chosen of (chosen_video, chosen_segment) \<Rightarrow>
      let start_s = start_str chosen_segment; end_s = end_str chosen_segment in
      case to_seconds start_s of Inl e \<Rightarrow> Inl e | Inr start_t \<Rightarrow>
      case to_seconds end_s of Inl e \<Rightarrow> Inl e | Inr end_t \<Rightarrow>
      let vol_mul = (case volume_multiplier_opt chosen_video of None \<Rightarrow> 1 | Some v \<Rightarrow> v);
          full_path = abspath_join os (raw_dir lib) (file_name chosen_video);
          clipped_path = clipped_path_of os lib chosen
      in if start_s \<noteq> ''full'' \<and> path_exists os clipped_path
         then Inr \<lparr>file_path = clipped_path, start_time = Marker ''full'',
                   end_time = Marker ''full'', volume_multiplier = vol_mul\<rparr>
         else Inr \<lparr>file_path = full_path, start_time = start_t, end_time = end_t,
                   volume_multiplier = vol_mul\<rparr>)"

text \<open>
  \<open>get_random_segment_by_tag\<close> on the library and the position in the random stream. The
  result carries the new state also when the call raises: a \<open>ValueError\<close> of a time
  string comes after the pair has left the pool.
\<close>

definition get_random_segment_by_tag ::
    "env \<Rightarrow> string \<Rightarrow> video_library \<times> nat \<Rightarrow> (exn + video_segment) \<times> (video_library \<times> nat)" where
  "get_random_segment_by_tag os tag_type st =
     (case st of (lib, p) \<Rightarrow>
      case tag_cache lib tag_type of
        None \<Rightarrow> (Inl ValueError, st)
      | Some full_pool \<Rightarrow>
          if full_pool = [] then (Inl ValueError, st)
          else
            let refill = (shuffle (random_stream os) p full_pool, p + (length full_pool - 1));
                (bag, p') =
                  (case shuffle_pools lib tag_type of
                     None \<Rightarrow> refill
                   | Some b \<Rightarrow> if b = [] then refill else (b, p))
            in if bag = []
               then (Inl IndexError,
                     (lib\<lparr>shuffle_pools := (shuffle_pools lib)(tag_type \<mapsto> bag)\<rparr>, p'))
               else
                 let lib' = lib\<lparr>shuffle_pools := (shuffle_pools lib)(tag_type \<mapsto> butlast bag)\<rparr>
                 in (resolve os lib' (last bag), (lib', p')))"

text \<open>Consecutive calls for one tag, with their results in the order of the calls.\<close>

fun select_n :: "env \<Rightarrow> string \<Rightarrow> nat \<Rightarrow> video_library \<times> nat
    \<Rightarrow> (exn + video_segment) list \<times> (video_library \<times> nat)" where
  "select_n os tag_type 0 st = ([], st)"
| "select_n os tag_type (Suc n) st =
     (case get_random_segment_by_tag os tag_type st of
        (r, st') \<Rightarrow> (case select_n os tag_type n st' of (rs, st'') \<Rightarrow> (r # rs, st'')))"

definition well_formed_time :: "string \<Rightarrow> bool" where
  "well_formed_time s = (case to_seconds s of Inr _ \<Rightarrow> True | Inl _ \<Rightarrow> False)"

section \<open>modules/obs_controller.py: OBSController\<close>

text \<open>
  The fields of the controller. A thread is known by a number, fresh at its creation.
  \<open>standby_callback\<close> is either unset or the method \<open>play_standby_video\<close>.
  \<open>ignore_end_event_counter\<close> is the attribute that \<open>main.py\<close> reads: \<open>__init__\<close>
  does not create it, so it is absent (\<open>None\<close>) until something assigns it.
\<close>

record controller =
  is_timed_playback :: bool
  active_timer_thread :: "nat option"
  current_target_scene :: "string option"
  current_preview_target :: "string option"
  is_standby_mode :: bool
  standby_callback :: bool
  library :: "video_library option"
  SCENE_MAIN :: string
  SCENE_EVENT :: string
  SCENE_PREVIEW :: string
  SOURCE_MEDIA :: string
  SOURCE_BG_MAIN :: string
  SOURCE_BG_PREVIEW :: string
  ignore_end_event_counter :: "int option"

text \<open>
  A thread that has been started and has not finished, at the place where it sleeps:
  \<open>_timer_worker\<close> before its identity check (delay, target scene, preview target),
  after the check, and between the restore and the preview; the thread that \<open>main.py\<close>
  starts on the standby callback; and its thread \<open>set_preview_delayed\<close>.
\<close>

datatype thread =
    TimerStarted rat string "string option"
  | TimerSleeping string "string option"
  | TimerSettling string
  | StandbyCallback
  | PreviewDelayed string

text \<open>
  The whole state: the controller, the position in the random stream, the requests sent
  to OBS so far, and the threads alive.
\<close>

record system =
  ctl :: controller
  rng_pos :: nat
  calls :: "request list"
  threads :: "(nat \<times> thread) list"
  next_tid :: nat

text \<open>A method runs on the state and returns a value or raises.\<close>

type_synonym 'a prog = "system \<Rightarrow> (exn + 'a) \<times> system"

definition ret :: "'a \<Rightarrow> 'a prog" where
  "ret x s = (Inr x, s)"

definition then_do :: "'a prog \<Rightarrow> ('a \<Rightarrow> 'b prog) \<Rightarrow> 'b prog" where
  "then_do m f s = (case m s of (Inl e, s') \<Rightarrow> (Inl e, s') | (Inr x, s') \<Rightarrow> f x s')"

definition modify :: "(system \<Rightarrow> system) \<Rightarrow> unit prog" where
  "modify f s = (Inr (), f s)"

text \<open>\<open>try: m  except Exception: pass\<close>\<close>

definition attempt :: "'a prog \<Rightarrow> unit prog" where
  "attempt m s = (Inr (), snd (m s))"

definition truthy :: "string option \<Rightarrow> bool" where
  "truthy x = (case x of None \<Rightarrow> False | Some n \<Rightarrow> n \<noteq> [])"

definition new_controller :: controller where
  "new_controller =
     \<lparr>is_timed_playback = False, active_timer_thread = None, current_target_scene = None,
      current_preview_target = None, is_standby_mode = False, standby_callback = False,
      library = None, SCENE_MAIN = [], SCENE_EVENT = [], SCENE_PREVIEW = [],
      SOURCE_MEDIA = [], SOURCE_BG_MAIN = [], SOURCE_BG_PREVIEW = [],
      ignore_end_event_counter = None\<rparr>"

text \<open>
  \<open>set_library\<close> with \<open>_parse_scene_settings\<close>; the names come from the settings under
  \<open>global_settings.obs.scenes\<close>, where the source \<open>transition_preview\<close> is optional.
\<close>

record scene_settings =
  main_output_name :: string
  obs_event_name :: string
  transition_preview_name :: string
  media_player_source :: string
  main_output_source :: string
  transition_preview_source :: "string option"

definition set_library :: "video_library \<Rightarrow> scene_settings \<Rightarrow> controller \<Rightarrow> controller" where
  "set_library lib scenes c =
     c\<lparr>library := Some lib,
       SCENE_MAIN := main_output_name scenes,
       SCENE_EVENT := obs_event_name scenes,
       SCENE_PREVIEW := transition_preview_name scenes,
       SOURCE_MEDIA := media_player_source scenes,
       SOURCE_BG_MAIN := main_output_source scenes,
       SOURCE_BG_PREVIEW :=
         (case transition_preview_source scenes of
            None \<Rightarrow> transition_preview_name scenes | Some n \<Rightarrow> n),
       standby_callback := True\<rparr>"

record transition_data =
  target_scene :: string
  preview_scene :: string
  bg_source :: string
  hide_source :: string

text \<open>The current scene is \<open>None\<close> when OBS could not tell it.\<close>

definition calculate_ab_transition :: "controller \<Rightarrow> string option \<Rightarrow> transition_data" where
  "calculate_ab_transition c current_scene =
     (if current_scene = Some (SCENE_PREVIEW c)
      then \<lparr>target_scene = SCENE_MAIN c, preview_scene = SCENE_PREVIEW c,
            bg_source = SOURCE_BG_PREVIEW c, hide_source = SOURCE_BG_MAIN c\<rparr>
      else \<lparr>target_scene = SCENE_PREVIEW c, preview_scene = SCENE_MAIN c,
            bg_source = SOURCE_BG_MAIN c, hide_source = SOURCE_BG_PREVIEW c\<rparr>)"

text \<open>\<open>self._ws.call(rq)\<close>: the request joins the trace, whatever comes back.\<close>

definition ws_call :: "env \<Rightarrow> request \<Rightarrow> response prog" where
  "ws_call e rq s = (obs e (calls s) rq, s\<lparr>calls := calls s @ [rq]\<rparr>)"

text \<open>Reading a field that the response does not have raises a \<open>KeyError\<close>.\<close>

definition getSceneItemId :: "response \<Rightarrow> int prog" where
  "getSceneItemId r = (case r of SceneItemId i \<Rightarrow> ret i | _ \<Rightarrow> (\<lambda>s. (Inl KeyError, s)))"

definition get_current_program_scene :: "env \<Rightarrow> string option prog" where
  "get_current_program_scene e s =
     (case ws_call e GetCurrentProgramScene s of
        (Inr (SceneName n), s') \<Rightarrow> (Inr (Some n), s')
      | (_, s') \<Rightarrow> (Inr None, s'))"

definition set_current_scene :: "env \<Rightarrow> string \<Rightarrow> unit prog" where
  "set_current_scene e scene_name s =
     (case ws_call e GetSceneList s of
        (Inr (Scenes names), s') \<Rightarrow>
          (if scene_name \<in> set names
           then attempt (ws_call e (SetCurrentProgramScene scene_name)) s'
           else (Inr (), s'))
      | (_, s') \<Rightarrow> (Inr (), s'))"

definition set_current_preview_scene :: "env \<Rightarrow> string \<Rightarrow> unit prog" where
  "set_current_preview_scene e scene_name = attempt (ws_call e (SetCurrentPreviewScene scene_name))"

text \<open>\<open>_wait_for_media_duration\<close>: the loop over \<open>range(max_retries)\<close>.\<close>

fun wait_for_media_duration :: "env \<Rightarrow> string \<Rightarrow> nat \<Rightarrow> int prog" where
  "wait_for_media_duration e source_name 0 s = (Inr (- 1), s)"
| "wait_for_media_duration e source_name (Suc n) s =
     (case ws_call e (GetMediaInputStatus source_name) s of
        (Inr (MediaStatus (Some duration) cursor), s') \<Rightarrow>
          (if duration > 0 then (Inr duration, s')
           else wait_for_media_duration e source_name n s')
      | (_, s') \<Rightarrow> wait_for_media_duration e source_name n s')"

text \<open>The loop of line 292: the cursor is set \<open>n\<close> times.\<close>

fun set_cursor_times :: "env \<Rightarrow> string \<Rightarrow> int \<Rightarrow> nat \<Rightarrow> unit prog" where
  "set_cursor_times e source_name ms 0 = ret ()"
| "set_cursor_times e source_name ms (Suc n) =
     then_do (ws_call e (SetMediaInputCursor source_name ms))
       (\<lambda>_. set_cursor_times e source_name ms n)"

text \<open>\<open>int(x)\<close> rounds towards zero.\<close>

definition py_int :: "rat \<Rightarrow> int" where
  "py_int x = (if x \<ge> 0 then \<lfloor>x\<rfloor> else \<lceil>x\<rceil>)"

definition set_item_enabled :: "env \<Rightarrow> string \<Rightarrow> string \<Rightarrow> bool \<Rightarrow> response prog" where
  "set_item_enabled e scene_name source enabled =
     then_do (ws_call e (GetSceneItemId scene_name source)) (\<lambda>r.
     then_do (getSceneItemId r) (\<lambda>item_id.
     ws_call e (SetSceneItemEnabled scene_name item_id enabled)))"

text \<open>
  \<open>play_video_segment\<close>, lines 255 to 299: the fields of the session and the commands
  up to the start of the playback. The calls outside a \<open>try\<close> end the method when they
  raise.
\<close>

definition issue_play_commands :: "env \<Rightarrow> string \<Rightarrow> string \<Rightarrow> string \<Rightarrow> video_segment
    \<Rightarrow> string \<Rightarrow> string option \<Rightarrow> string option \<Rightarrow> unit prog" where
  "issue_play_commands e scene_name source_name background_source_name segment
      target_scene_name preview_target_scene_name source_to_hide =
     then_do (modify (\<lambda>s. s\<lparr>ctl := (ctl s)\<lparr>is_timed_playback := False,
                 current_target_scene := Some target_scene_name,
                 current_preview_target := preview_target_scene_name\<rparr>\<rparr>)) (\<lambda>_.
     then_do (case source_to_hide of
                Some h \<Rightarrow> if h \<noteq> [] then attempt (set_item_enabled e scene_name h False)
                          else ret ()
              | None \<Rightarrow> ret ()) (\<lambda>_.
     then_do (attempt (set_item_enabled e scene_name background_source_name True)) (\<lambda>_.
     then_do (ws_call e (SetInputMute source_name True)) (\<lambda>_.
     then_do (ws_call e (SetInputSettings source_name (file_path segment))) (\<lambda>_.
     then_do (ws_call e (SetInputVolume source_name (volume_multiplier segment))) (\<lambda>_.
     then_do (get_current_program_scene e) (\<lambda>current_scene.
     then_do (if current_scene \<noteq> Some scene_name
              then then_do (ws_call e (SetCurrentProgramScene scene_name)) (\<lambda>_. ret ())
              else ret ()) (\<lambda>_.
     then_do (case start_time segment of
                Seconds start \<Rightarrow> set_cursor_times e source_name (cursor_ms e start) 5
              | Marker _ \<Rightarrow> ret ()) (\<lambda>_.
     then_do (ws_call e (SetInputMute source_name False)) (\<lambda>_.
     then_do (ws_call e (TriggerMediaInputAction source_name
                ''OBS_WEBSOCKET_MEDIA_INPUT_ACTION_PLAY'')) (\<lambda>_.
     ret ())))))))))))"

text \<open>Lines 312 to 315: the cursor of the media, \<open>None\<close> when it cannot be read.\<close>

definition read_media_cursor :: "env \<Rightarrow> string \<Rightarrow> int option prog" where
  "read_media_cursor e source_name s =
     (case ws_call e (GetMediaInputStatus source_name) s of
        (Inr (MediaStatus duration cursor), s') \<Rightarrow> (Inr cursor, s')
      | (_, s') \<Rightarrow> (Inr None, s'))"

text \<open>Lines 321 to 323: the timer thread is created, recorded as the active one, started.\<close>

definition start_timer :: "rat \<Rightarrow> string \<Rightarrow> string option \<Rightarrow> system \<Rightarrow> system" where
  "start_timer delay target preview_target s =
     s\<lparr>ctl := (ctl s)\<lparr>is_timed_playback := True, active_timer_thread := Some (next_tid s)\<rparr>,
       threads := threads s @ [(next_tid s, TimerStarted delay target preview_target)],
       next_tid := Suc (next_tid s)\<rparr>"

text \<open>
  \<open>play_video_segment\<close>, lines 301 to 327: the duration is polled, the end of the
  segment is worked out, and the timer is armed or the playback is left to the event.
\<close>

definition schedule_completion :: "env \<Rightarrow> string \<Rightarrow> video_segment \<Rightarrow> string
    \<Rightarrow> string option \<Rightarrow> unit prog" where
  "schedule_completion e source_name segment target_scene_name preview_target_scene_name =
     then_do (wait_for_media_duration e source_name 20) (\<lambda>media_duration_ms.
     let commanded_start_sec = (case start_time segment of Seconds t \<Rightarrow> t | Marker _ \<Rightarrow> 0);
         numeric_end = (case end_time segment of Seconds t \<Rightarrow> t | Marker _ \<Rightarrow> - 1);
         end_sec = (if end_time segment \<in> set [Marker ''end'', Marker ''full'']
                       \<and> media_duration_ms > 0
                    then of_int media_duration_ms / 1000 else numeric_end);
         untimed = modify (\<lambda>s. s\<lparr>ctl := (ctl s)\<lparr>is_timed_playback := False\<rparr>\<rparr>)
     in if end_sec > 0
        then then_do (read_media_cursor e source_name) (\<lambda>actual_start_ms.
          let actual_start_sec =
                (case actual_start_ms of
                   Some ms \<Rightarrow> if ms \<ge> 0 then of_int ms / 1000 else commanded_start_sec
                 | None \<Rightarrow> commanded_start_sec);
              play_duration = (end_sec - actual_start_sec) + 2 / 10
          in if play_duration > 0
             then modify (start_timer play_duration target_scene_name preview_target_scene_name)
             else untimed)
        else untimed)"

definition play_video_segment :: "env \<Rightarrow> string \<Rightarrow> string \<Rightarrow> string \<Rightarrow> video_segment
    \<Rightarrow> string \<Rightarrow> string option \<Rightarrow> string option \<Rightarrow> unit prog" where
  "play_video_segment e scene_name source_name background_source_name segment
      target_scene_name preview_target_scene_name source_to_hide =
     then_do (issue_play_commands e scene_name source_name background_source_name segment
                target_scene_name preview_target_scene_name source_to_hide) (\<lambda>_.
     schedule_completion e source_name segment target_scene_name preview_target_scene_name)"

text \<open>The standby tag, the two characters U+5F85 U+6A5F, in UTF-8.\<close>

definition STANDBY :: string where
  "STANDBY = [CHR 0xE5, CHR 0xBE, CHR 0x85, CHR 0xE6, CHR 0xA9, CHR 0x9F]"

text \<open>
  \<open>self.library.get_random_segment_by_tag(tag)\<close> on the state of the system; without a
  library the attribute access raises.
\<close>

definition library_select :: "env \<Rightarrow> string \<Rightarrow> video_segment prog" where
  "library_select e tag_type s =
     (case library (ctl s) of
        None \<Rightarrow> (Inl AttributeError, s)
      | Some lib \<Rightarrow>
          (case get_random_segment_by_tag e tag_type (lib, rng_pos s) of
             (r, (lib', p')) \<Rightarrow> (r, s\<lparr>ctl := (ctl s)\<lparr>library := Some lib'\<rparr>, rng_pos := p'\<rparr>)))"

definition play_standby_video :: "env \<Rightarrow> unit prog" where
  "play_standby_video e s =
     (if library (ctl s) = None then (Inr (), s)
      else attempt
        (then_do (library_select e STANDBY) (\<lambda>segment.
         play_video_segment e (SCENE_EVENT (ctl s)) (SOURCE_MEDIA (ctl s)) (SOURCE_BG_MAIN (ctl s))
           segment (SCENE_MAIN (ctl s)) (Some (SCENE_PREVIEW (ctl s))) None)) s)"

text \<open>The result of a play request: the dictionary with status, message and code.\<close>

datatype message =
    StartedStandbyLoop
  | LibraryNotInitialized
  | PlayingSegment video_segment
  | ErrorText exn
  | InternalError exn

record play_result =
  status :: string
  message :: message
  code :: nat

text \<open>Lines 149 to 166, the body of the \<open>try\<close> of \<open>handle_play_request\<close>.\<close>

definition select_and_play :: "env \<Rightarrow> string \<Rightarrow> video_segment prog" where
  "select_and_play e tag_type =
     then_do (library_select e tag_type) (\<lambda>selected_segment.
     then_do (get_current_program_scene e) (\<lambda>current_scene.
     (\<lambda>s. let transition = calculate_ab_transition (ctl s) current_scene
          in then_do (play_video_segment e (SCENE_EVENT (ctl s)) (SOURCE_MEDIA (ctl s))
                        (bg_source transition) selected_segment (target_scene transition)
                        (Some (preview_scene transition)) (Some (hide_source transition)))
               (\<lambda>_. ret selected_segment) s)))"

definition handle_play_request :: "env \<Rightarrow> string \<Rightarrow> play_result prog" where
  "handle_play_request e tag_type =
     (if tag_type = STANDBY
      then then_do (modify (\<lambda>s. s\<lparr>ctl := (ctl s)\<lparr>is_standby_mode := True\<rparr>\<rparr>)) (\<lambda>_.
           then_do (play_standby_video e) (\<lambda>_.
           ret \<lparr>status = ''success'', message = StartedStandbyLoop, code = 200\<rparr>))
      else then_do (modify (\<lambda>s. if is_standby_mode (ctl s)
                                  then s\<lparr>ctl := (ctl s)\<lparr>is_standby_mode := False\<rparr>\<rparr> else s)) (\<lambda>_.
           (\<lambda>s. if library (ctl s) = None
                then (Inr \<lparr>status = ''error'', message = LibraryNotInitialized, code = 500\<rparr>, s)
                else (case select_and_play e tag_type s of
                        (Inr segment, s') \<Rightarrow>
                          (Inr \<lparr>status = ''success'', message = PlayingSegment segment,
                                code = 200\<rparr>, s')
                      | (Inl ValueError, s') \<Rightarrow>
                          (Inr \<lparr>status = ''error'', message = ErrorText ValueError,
                                code = 404\<rparr>, s')
                      | (Inl err, s') \<Rightarrow>
                          (Inr \<lparr>status = ''error'', message = InternalError err,
                                code = 500\<rparr>, s')))))"

text \<open>
  \<open>_timer_worker\<close> from line 234 on, when its sleep is over, up to the sleep before the
  preview is set. The thread does not look at \<open>active_timer_thread\<close> again.
\<close>

definition timer_fire :: "env \<Rightarrow> nat \<Rightarrow> string \<Rightarrow> string option \<Rightarrow> system \<Rightarrow> system" where
  "timer_fire e tid target preview_target s =
     (if is_standby_mode (ctl s)
      then (if standby_callback (ctl s) then snd (play_standby_video e s) else s)
      else
        let s1 = snd (set_current_scene e target s)
        in (case preview_target of
              Some n \<Rightarrow>
                if n \<noteq> [] then s1\<lparr>threads := threads s1 @ [(tid, TimerSettling n)]\<rparr>
                else s1\<lparr>ctl := (ctl s1)\<lparr>active_timer_thread := None\<rparr>\<rparr>
            | None \<Rightarrow> s1\<lparr>ctl := (ctl s1)\<lparr>active_timer_thread := None\<rparr>\<rparr>))"

text \<open>
  A thread runs from the place where it sleeps to its next sleep or to its end. The
  identity check of \<open>_timer_worker\<close> (line 227) comes after its first sleep only.
\<close>

definition run_thread :: "env \<Rightarrow> nat \<Rightarrow> system \<Rightarrow> system" where
  "run_thread e tid s =
     (case map_of (threads s) tid of
        None \<Rightarrow> s
      | Some th \<Rightarrow>
          let s0 = s\<lparr>threads := filter (\<lambda>(i, _). i \<noteq> tid) (threads s)\<rparr>
          in (case th of
                TimerStarted delay target preview_target \<Rightarrow>
                  if active_timer_thread (ctl s0) \<noteq> Some tid then s0
                  else if delay - 1 / 10 > 0
                  then s0\<lparr>threads := threads s0 @ [(tid, TimerSleeping target preview_target)]\<rparr>
                  else timer_fire e tid target preview_target s0
              | TimerSleeping target preview_target \<Rightarrow>
                  timer_fire e tid target preview_target s0
              | TimerSettling n \<Rightarrow>
                  (let s1 = snd (set_current_preview_scene e n s0)
                   in s1\<lparr>ctl := (ctl s1)\<lparr>active_timer_thread := None\<rparr>\<rparr>)
              | StandbyCallback \<Rightarrow> snd (play_standby_video e s0)
              | PreviewDelayed n \<Rightarrow> snd (set_current_preview_scene e n s0)))"

section \<open>main.py: the handler of the media events\<close>

definition spawn :: "thread \<Rightarrow> system \<Rightarrow> system" where
  "spawn th s = s\<lparr>threads := threads s @ [(next_tid s, th)], next_tid := Suc (next_tid s)\<rparr>"

text \<open>
  \<open>on_media_input_playback_state_changed\<close>, on the name of the input and the state of
  the message. Reading the counter raises when the controller has no such attribute.
\<close>

definition on_media_input_playback_state_changed :: "env \<Rightarrow> string \<Rightarrow> string \<Rightarrow> unit prog" where
  "on_media_input_playback_state_changed e input_name state s =
     (if input_name = SOURCE_MEDIA (ctl s) \<and> state = ''OBS_MEDIA_STATE_ENDED''
      then (case ignore_end_event_counter (ctl s) of
              None \<Rightarrow> (Inl AttributeError, s)
            | Some n \<Rightarrow>
                if n > 0
                then (Inr (), s\<lparr>ctl := (ctl s)\<lparr>ignore_end_event_counter := Some (n - 1)\<rparr>\<rparr>)
                else if \<not> is_timed_playback (ctl s)
                then (if is_standby_mode (ctl s)
                      then (if standby_callback (ctl s) then (Inr (), spawn StandbyCallback s)
                            else (Inr (), s))
                      else
                        let target = (case current_target_scene (ctl s) of
                                        Some t \<Rightarrow> if t \<noteq> [] then t else SCENE_PREVIEW (ctl s)
                                      | None \<Rightarrow> SCENE_PREVIEW (ctl s));
                            preview_target = current_preview_target (ctl s);
                            s1 = snd (set_current_scene e target s)
                        in (case preview_target of
                              Some n \<Rightarrow> if n \<noteq> [] then (Inr (), spawn (PreviewDelayed n) s1)
                                        else (Inr (), s1)
                            | None \<Rightarrow> (Inr (), s1)))
                else (Inr (), s))
      else (Inr (), s))"

section \<open>The running system\<close>

text \<open>
  What happens to the system, one at a time: a play request arrives, OBS reports a media
  event, a sleeping thread goes on. An exception that leaves a handler ends that handler.
\<close>

datatype event =
    PlayRequest string
  | MediaInputPlaybackStateChanged string string
  | ThreadRuns nat

definition step :: "env \<Rightarrow> system \<Rightarrow> event \<Rightarrow> system" where
  "step e s ev =
     (case ev of
        PlayRequest tag_type \<Rightarrow> snd (handle_play_request e tag_type s)
      | MediaInputPlaybackStateChanged input_name state \<Rightarrow>
          snd (on_media_input_playback_state_changed e input_name state s)
      | ThreadRuns tid \<Rightarrow> run_thread e tid s)"

definition run :: "env \<Rightarrow> system \<Rightarrow> event list \<Rightarrow> system" where
  "run e s evs = foldl (step e) s evs"

definition counter_of :: "system \<Rightarrow> int option" where
  "counter_of s = ignore_end_event_counter (ctl s)"

definition counter_not_negative :: "system \<Rightarrow> bool" where
  "counter_not_negative s = (case counter_of s of None \<Rightarrow> True | Some n \<Rightarrow> 0 \<le> n)"

text \<open>A method leaves a part \<open>g\<close> of the state as it is, whatever it returns.\<close>

definition preserves :: "(system \<Rightarrow> 'x) \<Rightarrow> 'a prog \<Rightarrow> bool" where
  "preserves g m = (\<forall>s. g (snd (m s)) = g s)"

text \<open>Lines 141 to 143 of \<open>handle_play_request\<close>: a request for another tag ends the standby.\<close>

definition leave_standby :: "system \<Rightarrow> system" where
  "leave_standby s = (if is_standby_mode (ctl s)
                       then s\<lparr>ctl := (ctl s)\<lparr>is_standby_mode := False\<rparr>\<rparr> else s)"

section \<open>A catalog and an OBS to run the program on\<close>

text \<open>
  A small installation: two videos, the scenes \<open>Main\<close>, \<open>Event\<close> and \<open>Preview\<close>, and an
  OBS that accepts every command, knows the program scene from the commands it has had,
  and reports a media of 20000 ms with the cursor at 5000 ms. No clip is on disk. The
  times of the catalog are whole milliseconds that floating point multiplies exactly.
\<close>

fun program_scene_after :: "request list \<Rightarrow> string \<Rightarrow> string" where
  "program_scene_after [] cur = cur"
| "program_scene_after (SetCurrentProgramScene n # tr) cur = program_scene_after tr n"
| "program_scene_after (rq # tr) cur = program_scene_after tr cur"

definition demo_obs :: "request list \<Rightarrow> request \<Rightarrow> exn + response" where
  "demo_obs tr rq =
     (case rq of
        GetCurrentProgramScene \<Rightarrow> Inr (SceneName (program_scene_after tr ''Main''))
      | GetSceneList \<Rightarrow> Inr (Scenes [''Main'', ''Event'', ''Preview''])
      | GetSceneItemId sc src \<Rightarrow> Inr (SceneItemId 1)
      | GetMediaInputStatus src \<Rightarrow> Inr (MediaStatus (Some 20000) (Some 5000))
      | _ \<Rightarrow> Inr Done)"

definition demo_env :: env where
  "demo_env =
     \<lparr>random_stream = (\<lambda>n. n), path_exists = (\<lambda>p. False),
      abspath_join = (\<lambda>d f. d @ ''/'' @ f),
      file_root_of = takeWhile (\<lambda>c. c \<noteq> CHR ''.''),
      cursor_ms = (\<lambda>x. py_int (x * 1000)),
      obs = demo_obs\<rparr>"

definition intro_segment :: segment_spec where
  "intro_segment = \<lparr>start_str = ''00:00:05.0'', end_str = ''00:00:10.0''\<rparr>"

definition intro_video :: video where
  "intro_video =
     \<lparr>file_name = ''intro.mp4'', volume_multiplier_opt = Some (8 / 10),
      tags = [(''intro'', [intro_segment]), (''empty'', [])]\<rparr>"

definition loop_segments :: "segment_spec list" where
  "loop_segments =
     [\<lparr>start_str = ''full'', end_str = ''full''\<rparr>,
      \<lparr>start_str = ''00:01:00'', end_str = ''end''\<rparr>,
      \<lparr>start_str = ''0:2:3.5'', end_str = ''00:02:10.25''\<rparr>]"

definition loop_video :: video where
  "loop_video =
     \<lparr>file_name = ''loop.mkv'', volume_multiplier_opt = None,
      tags = [(''loop'', loop_segments)]\<rparr>"

definition demo_library :: video_library where
  "demo_library = new_library [intro_video, loop_video] ''raw'' ''clips''"

definition demo_scenes :: scene_settings where
  "demo_scenes =
     \<lparr>main_output_name = ''Main'', obs_event_name = ''Event'',
      transition_preview_name = ''Preview'', media_player_source = ''Media'',
      main_output_source = ''MainBg'', transition_preview_source = Some ''PreviewBg''\<rparr>"

definition demo_controller :: controller where
  "demo_controller = set_library demo_library demo_scenes new_controller"

definition demo_system :: system where
  "demo_system =
     \<lparr>ctl = demo_controller, rng_pos = 0, calls = [], threads = [], next_tid = 0\<rparr>"

text \<open>The system before \<open>set_library\<close>: a new controller, no library.\<close>

definition bare_system :: system where
  "bare_system = \<lparr>ctl = new_controller, rng_pos = 0, calls = [], threads = [], next_tid = 0\<rparr>"

text \<open>The demo system with the counter of \<open>main.py\<close> assigned the value 2.\<close>

definition counting_system :: system where
  "counting_system = demo_system\<lparr>ctl := demo_controller\<lparr>ignore_end_event_counter := Some 2\<rparr>\<rparr>"

text \<open>An OBS as before whose media status never answers: every poll of the duration fails.\<close>

definition silent_obs :: "request list \<Rightarrow> request \<Rightarrow> exn + response" where
  "silent_obs tr rq =
     (case rq of GetMediaInputStatus src \<Rightarrow> Inl MessageTimeout | _ \<Rightarrow> demo_obs tr rq)"

definition silent_env :: env where
  "silent_env = demo_env\<lparr>obs := silent_obs\<rparr>"

text \<open>The segment that the tag \<open>intro\<close> of the demo catalog resolves to.\<close>

definition intro_resolved :: video_segment where
  "intro_resolved =
     \<lparr>file_path = ''raw/intro.mp4'', start_time = Seconds 5, end_time = Seconds 10,
      volume_multiplier = 8 / 10\<rparr>"

section \<open>Properties\<close>

subsection \<open>The shuffle is a permutation\<close>

lemma mset_shuffle_from: "i < length xs \<Longrightarrow> mset (shuffle_from r p i xs) = mset xs"
proof (induction i arbitrary: p xs)
  case 0
  then show ?case by simp
next
  case (Suc i)
  have j: "r p mod Suc (Suc i) < length xs"
  proof -
    have "r p mod Suc (Suc i) < Suc (Suc i)" by simp
    with Suc.prems show ?thesis by linarith
  qed
  show ?case using Suc j by (simp add: Let_def mset_swap)
qed

lemma mset_shuffle: "mset (shuffle r p xs) = mset xs"
proof (cases xs)
  case Nil
  then show ?thesis by (simp add: shuffle_def)
next
  case (Cons a list)
  then show ?thesis by (simp add: shuffle_def mset_shuffle_from)
qed

lemma length_shuffle: "length (shuffle r p xs) = length xs"
  using mset_shuffle [of r p xs] by (metis size_mset)

lemma shuffle_nonempty: "xs \<noteq> [] \<Longrightarrow> shuffle r p xs \<noteq> []"
  using length_shuffle [of r p xs] by auto

subsection \<open>One selection\<close>

lemma resolve_pools: "resolve e (lib\<lparr>shuffle_pools := sp\<rparr>) = resolve e lib"
proof
  fix c
  show "resolve e (lib\<lparr>shuffle_pools := sp\<rparr>) c = resolve e lib c"
    by (cases c) (simp add: resolve_def clipped_path_of_def Let_def split: sum.splits)
qed

lemma resolve_well_formed:
  assumes "well_formed_time (start_str sp)" and "well_formed_time (end_str sp)"
  shows "\<exists>seg. resolve e lib (v, sp) = Inr seg"
  using assms
  by (auto simp add: resolve_def well_formed_time_def Let_def split: sum.splits)

lemma pop_step:
  assumes "tag_cache lib tag = Some pool" "pool \<noteq> []" "shuffle_pools lib tag = Some (b @ [c])"
  shows "get_random_segment_by_tag e tag (lib, p) =
    (resolve e lib c, (lib\<lparr>shuffle_pools := (shuffle_pools lib)(tag \<mapsto> b)\<rparr>, p))"
  using assms
  by (simp add: get_random_segment_by_tag_def resolve_pools Let_def)

lemma refill_step:
  assumes "tag_cache lib tag = Some pool" "pool \<noteq> []"
    "shuffle_pools lib tag = None \<or> shuffle_pools lib tag = Some []"
  shows "get_random_segment_by_tag e tag (lib, p) =
    (resolve e lib (last (shuffle (random_stream e) p pool)),
     (lib\<lparr>shuffle_pools := (shuffle_pools lib)(tag \<mapsto> butlast (shuffle (random_stream e) p pool))\<rparr>,
      p + (length pool - 1)))"
proof -
  have sh: "shuffle (random_stream e) p pool \<noteq> []"
    using shuffle_nonempty [OF assms(2)] .
  from assms(3) show ?thesis
  proof
    assume "shuffle_pools lib tag = None"
    with assms(1) sh show ?thesis
      using assms(2) by (simp add: get_random_segment_by_tag_def resolve_pools Let_def)
  next
    assume "shuffle_pools lib tag = Some []"
    with assms(1) sh show ?thesis
      using assms(2) by (simp add: get_random_segment_by_tag_def resolve_pools Let_def)
  qed
qed

text \<open>A pool that holds \<open>b\<close> is emptied by \<open>length b\<close> calls, from its end.\<close>

lemma drain:
  assumes "tag_cache lib tag = Some pool" "pool \<noteq> []" "shuffle_pools lib tag = Some b"
  shows "select_n e tag (length b) (lib, p) =
    (map (resolve e lib) (rev b), (lib\<lparr>shuffle_pools := (shuffle_pools lib)(tag \<mapsto> [])\<rparr>, p))"
  using assms
proof (induction b arbitrary: lib rule: rev_induct)
  case Nil
  have "(shuffle_pools lib)(tag \<mapsto> []) = shuffle_pools lib"
    using Nil.prems(3) by (simp add: map_upd_triv)
  then show ?case by simp
next
  case (snoc c b)
  let ?lib = "lib\<lparr>shuffle_pools := (shuffle_pools lib)(tag \<mapsto> b)\<rparr>"
  have step: "get_random_segment_by_tag e tag (lib, p) = (resolve e lib c, (?lib, p))"
    using pop_step [OF snoc.prems(1,2,3)] .
  have "select_n e tag (length b) (?lib, p) =
      (map (resolve e ?lib) (rev b), (?lib\<lparr>shuffle_pools := (shuffle_pools ?lib)(tag \<mapsto> [])\<rparr>, p))"
    using snoc.prems by (intro snoc.IH) simp_all
  moreover have "?lib\<lparr>shuffle_pools := (shuffle_pools ?lib)(tag \<mapsto> [])\<rparr> =
      lib\<lparr>shuffle_pools := (shuffle_pools lib)(tag \<mapsto> [])\<rparr>"
    by simp
  ultimately have rest: "select_n e tag (length b) (?lib, p) =
      (map (resolve e lib) (rev b), (lib\<lparr>shuffle_pools := (shuffle_pools lib)(tag \<mapsto> [])\<rparr>, p))"
    by (simp only: resolve_pools)
  have "select_n e tag (Suc (length b)) (lib, p) =
      (resolve e lib c # map (resolve e lib) (rev b),
       (lib\<lparr>shuffle_pools := (shuffle_pools lib)(tag \<mapsto> [])\<rparr>, p))"
    by (simp only: select_n.simps step rest prod.case)
  moreover have "length (b @ [c]) = Suc (length b)" by simp
  moreover have "rev (b @ [c]) = c # rev b" by simp
  ultimately show ?case by (simp only: list.map)
qed

text \<open>
  C8. For a tag that the cache does not have, or has with no segment,
  \<open>get_random_segment_by_tag\<close> raises \<open>ValueError\<close> and the library (the cache and every
  shuffle pool) and the random generator are as before the call.
\<close>

theorem unknown_tag_raises_and_keeps_state:
  assumes "tag_cache lib tag = None \<or> tag_cache lib tag = Some []"
  shows "get_random_segment_by_tag e tag (lib, p) = (Inl ValueError, (lib, p))"
  using assms by (auto simp add: get_random_segment_by_tag_def)

theorem unknown_tag_raises_and_keeps_state_witness:
  "get_random_segment_by_tag demo_env ''outro'' (demo_library, 0) = (Inl ValueError, (demo_library, 0))
   \<and> get_random_segment_by_tag demo_env ''empty'' (demo_library, 0) = (Inl ValueError, (demo_library, 0))"
proof -
  have absent: "tag_cache demo_library ''outro'' = None"
    by code_simp
  have empty: "tag_cache demo_library ''empty'' = Some []"
    by code_simp
  show ?thesis
    using unknown_tag_raises_and_keeps_state [of demo_library "''outro''" demo_env 0]
      unknown_tag_raises_and_keeps_state [of demo_library "''empty''" demo_env 0]
      absent empty
    by simp
qed

lemma resolve_fields:
  assumes "resolve e lib (v, sp) = Inr seg"
  shows "volume_multiplier seg = (case volume_multiplier_opt v of None \<Rightarrow> 1 | Some x \<Rightarrow> x)
    \<and> (if start_str sp \<noteq> ''full'' \<and> path_exists e (clipped_path_of e lib (v, sp))
       then file_path seg = clipped_path_of e lib (v, sp)
          \<and> start_time seg = Marker ''full'' \<and> end_time seg = Marker ''full''
       else file_path seg = abspath_join e (raw_dir lib) (file_name v)
          \<and> to_seconds (start_str sp) = Inr (start_time seg)
          \<and> to_seconds (end_str sp) = Inr (end_time seg))"
  using assms
  by (auto simp add: resolve_def Let_def split: sum.splits if_splits)

lemma resolved_list:
  assumes "map Inr segs = map (resolve e lib) bag"
  shows "list_all2 (\<lambda>(v, sp) seg.
      volume_multiplier seg = (case volume_multiplier_opt v of None \<Rightarrow> 1 | Some x \<Rightarrow> x)
      \<and> (if start_str sp \<noteq> ''full'' \<and> path_exists e (clipped_path_of e lib (v, sp))
         then file_path seg = clipped_path_of e lib (v, sp)
            \<and> start_time seg = Marker ''full'' \<and> end_time seg = Marker ''full''
         else file_path seg = abspath_join e (raw_dir lib) (file_name v)
            \<and> to_seconds (start_str sp) = Inr (start_time seg)
            \<and> to_seconds (end_str sp) = Inr (end_time seg))) bag segs"
  using assms
proof (induction bag arbitrary: segs)
  case Nil
  then show ?case by simp
next
  case (Cons c bag)
  then obtain seg rest where segs: "segs = seg # rest" by (cases segs) auto
  obtain v sp where c: "c = (v, sp)" by (cases c)
  from Cons.prems segs c have hd: "resolve e lib (v, sp) = Inr seg"
    and tl: "map Inr rest = map (resolve e lib) bag" by simp_all
  from resolve_fields [OF hd] Cons.IH [OF tl] show ?case
    by (simp add: segs c)
qed


text \<open>
  C1 as stated fails: \<open>N\<close> consecutive calls that begin in the middle of a cycle take
  what is left of one shuffle and then the first pairs of the next. On the demo catalog the
  tag \<open>loop\<close> has three segments; after one call, the next three calls return the segment
  from 123.5 s twice and the whole file never.
\<close>

theorem window_inside_cycle_counterexample:
  "tag_cache demo_library ''loop'' = Some (map (Pair loop_video) loop_segments)
   \<and> length loop_segments = 3
   \<and> fst (select_n demo_env ''loop'' 3
         (snd (get_random_segment_by_tag demo_env ''loop'' (demo_library, 0)))) =
     [Inr \<lparr>file_path = ''raw/loop.mkv'', start_time = Seconds 60, end_time = Marker ''end'',
           volume_multiplier = 1\<rparr>,
      Inr \<lparr>file_path = ''raw/loop.mkv'', start_time = Seconds (247 / 2),
           end_time = Seconds (521 / 4), volume_multiplier = 1\<rparr>,
      Inr \<lparr>file_path = ''raw/loop.mkv'', start_time = Seconds (247 / 2),
           end_time = Seconds (521 / 4), volume_multiplier = 1\<rparr>]"
proof -
  have c: "tag_cache demo_library ''loop'' = Some (map (Pair loop_video) loop_segments)"
    by code_simp
  have n: "length loop_segments = 3"
    by (simp add: loop_segments_def)
  have w: "fst (select_n demo_env ''loop'' 3
         (snd (get_random_segment_by_tag demo_env ''loop'' (demo_library, 0)))) =
     [Inr \<lparr>file_path = ''raw/loop.mkv'', start_time = Seconds 60, end_time = Marker ''end'',
           volume_multiplier = 1\<rparr>,
      Inr \<lparr>file_path = ''raw/loop.mkv'', start_time = Seconds (247 / 2),
           end_time = Seconds (521 / 4), volume_multiplier = 1\<rparr>,
      Inr \<lparr>file_path = ''raw/loop.mkv'', start_time = Seconds (247 / 2),
           end_time = Seconds (521 / 4), volume_multiplier = 1\<rparr>]"
    by code_simp
  show ?thesis by (intro conjI c n w)
qed

text \<open>
  C1, amended. For a tag with \<open>N \<ge> 1\<close> segments whose time strings are all well-formed,
  \<open>N\<close> consecutive calls of \<open>get_random_segment_by_tag\<close> that begin at a refill (the pool
  of the tag is unset or used up, as in a new library and after a whole cycle) all return.
  There is a permutation \<open>bag\<close> of the \<open>N\<close> pairs of the tag, each pair once, such that
  call \<open>i\<close> returns the segment of pair \<open>i\<close>: its volume is that of the video (1 when
  the video names none); when the start is not \<open>full\<close> and the clip of the pair is on disk
  it is the clip, from \<open>full\<close> to \<open>full\<close>; otherwise it is the raw file with the two
  times of the pair in seconds. After these calls the pool is empty, and call \<open>N + 1\<close>
  shuffles a copy of the whole pool of the tag again, with draws that the first shuffle has
  not used, and takes its last pair.
\<close>

theorem shuffle_bag_cycle:
  assumes "tag_cache lib tag = Some pool" and "pool \<noteq> []"
    and "shuffle_pools lib tag = None \<or> shuffle_pools lib tag = Some []"
    and "\<forall>(v, sp) \<in> set pool. well_formed_time (start_str sp) \<and> well_formed_time (end_str sp)"
  shows "\<exists>bag bag' segs lib'.
      mset bag = mset pool \<and> mset bag' = mset pool \<and>
      select_n e tag (length pool) (lib, p) = (map Inr segs, (lib', p + (length pool - 1))) \<and>
      map Inr segs = map (resolve e lib) bag \<and>
      list_all2 (\<lambda>(v, sp) seg.
          volume_multiplier seg = (case volume_multiplier_opt v of None \<Rightarrow> 1 | Some x \<Rightarrow> x)
          \<and> (if start_str sp \<noteq> ''full'' \<and> path_exists e (clipped_path_of e lib (v, sp))
             then file_path seg = clipped_path_of e lib (v, sp)
                \<and> start_time seg = Marker ''full'' \<and> end_time seg = Marker ''full''
             else file_path seg = abspath_join e (raw_dir lib) (file_name v)
                \<and> to_seconds (start_str sp) = Inr (start_time seg)
                \<and> to_seconds (end_str sp) = Inr (end_time seg))) bag segs \<and>
      tag_cache lib' = tag_cache lib \<and> shuffle_pools lib' tag = Some [] \<and>
      bag' = shuffle (random_stream e) (p + (length pool - 1)) pool \<and>
      get_random_segment_by_tag e tag (lib', p + (length pool - 1)) =
        (resolve e lib (last bag'),
         (lib'\<lparr>shuffle_pools := (shuffle_pools lib')(tag \<mapsto> butlast bag')\<rparr>,
          p + (length pool - 1) + (length pool - 1)))"
proof -
  let ?r = "random_stream e"
  let ?q = "p + (length pool - 1)"
  let ?bag = "shuffle ?r p pool"
  let ?lib1 = "lib\<lparr>shuffle_pools := (shuffle_pools lib)(tag \<mapsto> butlast ?bag)\<rparr>"
  let ?lib2 = "lib\<lparr>shuffle_pools := (shuffle_pools lib)(tag \<mapsto> [])\<rparr>"
  have ne: "?bag \<noteq> []" using shuffle_nonempty [OF assms(2)] .
  have len: "length pool = Suc (length (butlast ?bag))"
    using assms(2) by (cases pool) (simp_all add: length_shuffle)
  have first: "get_random_segment_by_tag e tag (lib, p) = (resolve e lib (last ?bag), (?lib1, ?q))"
    using refill_step [OF assms(1,2,3)] .
  have "select_n e tag (length (butlast ?bag)) (?lib1, ?q) =
      (map (resolve e ?lib1) (rev (butlast ?bag)),
       (?lib1\<lparr>shuffle_pools := (shuffle_pools ?lib1)(tag \<mapsto> [])\<rparr>, ?q))"
    using assms(1,2) by (intro drain) simp_all
  moreover have "?lib1\<lparr>shuffle_pools := (shuffle_pools ?lib1)(tag \<mapsto> [])\<rparr> = ?lib2"
    by simp
  ultimately have rest: "select_n e tag (length (butlast ?bag)) (?lib1, ?q) =
      (map (resolve e lib) (rev (butlast ?bag)), (?lib2, ?q))"
    by (simp only: resolve_pools)
  have calls: "select_n e tag (Suc (length (butlast ?bag))) (lib, p) =
      (resolve e lib (last ?bag) # map (resolve e lib) (rev (butlast ?bag)), (?lib2, ?q))"
    by (simp only: select_n.simps first rest prod.case)
  have "rev ?bag = rev (butlast ?bag @ [last ?bag])"
    using ne by simp
  then have "rev ?bag = last ?bag # rev (butlast ?bag)"
    by (simp only: rev_append rev.simps append_Nil append_Cons)
  then have "map (resolve e lib) (rev ?bag) =
      resolve e lib (last ?bag) # map (resolve e lib) (rev (butlast ?bag))"
    by (simp only: list.map)
  with calls have all: "select_n e tag (length pool) (lib, p) = (map (resolve e lib) (rev ?bag), (?lib2, ?q))"
    by (simp only: len [symmetric])
  have c2: "tag_cache ?lib2 tag = Some pool" using assms(1) by simp
  have s2: "shuffle_pools ?lib2 tag = None \<or> shuffle_pools ?lib2 tag = Some []" by simp
  have next_call: "get_random_segment_by_tag e tag (?lib2, ?q) =
      (resolve e lib (last (shuffle ?r ?q pool)),
       (?lib2\<lparr>shuffle_pools := (shuffle_pools ?lib2)(tag \<mapsto> butlast (shuffle ?r ?q pool))\<rparr>,
        ?q + (length pool - 1)))"
    using refill_step [OF c2 assms(2) s2] by (simp only: resolve_pools)
  have perm: "mset (rev ?bag) = mset pool" by (simp add: mset_shuffle)
  have perm': "mset (shuffle ?r ?q pool) = mset pool" by (simp add: mset_shuffle)
  have "\<forall>y \<in> set (map (resolve e lib) (rev ?bag)). \<exists>seg. y = Inr seg"
  proof
    fix y
    assume "y \<in> set (map (resolve e lib) (rev ?bag))"
    then obtain c where c: "c \<in> set ?bag" and y: "y = resolve e lib c" by auto
    from c have "c \<in> set pool" using mset_shuffle [of ?r p pool] by (metis set_mset_mset)
    with assms(4) have "well_formed_time (start_str (snd c)) \<and> well_formed_time (end_str (snd c))"
      by (cases c) auto
    then show "\<exists>seg. y = Inr seg"
      using resolve_well_formed [of "snd c" e lib "fst c"] y by simp
  qed
  then obtain segs where segs: "map (resolve e lib) (rev ?bag) = map Inr segs"
    by (metis ex_map_conv)
  have fields: "list_all2 (\<lambda>(v, sp) seg.
          volume_multiplier seg = (case volume_multiplier_opt v of None \<Rightarrow> 1 | Some x \<Rightarrow> x)
          \<and> (if start_str sp \<noteq> ''full'' \<and> path_exists e (clipped_path_of e lib (v, sp))
             then file_path seg = clipped_path_of e lib (v, sp)
                \<and> start_time seg = Marker ''full'' \<and> end_time seg = Marker ''full''
             else file_path seg = abspath_join e (raw_dir lib) (file_name v)
                \<and> to_seconds (start_str sp) = Inr (start_time seg)
                \<and> to_seconds (end_str sp) = Inr (end_time seg))) (rev ?bag) segs"
    using resolved_list [OF segs [symmetric]] .
  have cache: "tag_cache ?lib2 = tag_cache lib" by simp
  have empty: "shuffle_pools ?lib2 tag = Some []" by simp
  show ?thesis
    apply (rule exI [of _ "rev ?bag"])
    apply (rule exI [of _ "shuffle ?r ?q pool"])
    apply (rule exI [of _ segs])
    apply (rule exI [of _ ?lib2])
    apply (intro conjI)
    apply (rule perm)
    apply (rule perm')
    apply (simp only: all segs)
    apply (simp only: segs)
    apply (rule fields)
    apply (rule cache)
    apply (rule empty)
    apply (rule refl)
    apply (rule next_call)
    done
qed

theorem shuffle_bag_cycle_witness:
  "\<exists>bag bag' segs lib'.
      mset bag = mset (map (Pair loop_video) loop_segments) \<and>
      mset bag' = mset (map (Pair loop_video) loop_segments) \<and>
      select_n demo_env ''loop'' 3 (demo_library, 0) = (map Inr segs, (lib', 2)) \<and>
      map Inr segs = map (resolve demo_env demo_library) bag \<and>
      list_all2 (\<lambda>(v, sp) seg.
          volume_multiplier seg = (case volume_multiplier_opt v of None \<Rightarrow> 1 | Some x \<Rightarrow> x)
          \<and> (if start_str sp \<noteq> ''full''
                  \<and> path_exists demo_env (clipped_path_of demo_env demo_library (v, sp))
             then file_path seg = clipped_path_of demo_env demo_library (v, sp)
                \<and> start_time seg = Marker ''full'' \<and> end_time seg = Marker ''full''
             else file_path seg = abspath_join demo_env (raw_dir demo_library) (file_name v)
                \<and> to_seconds (start_str sp) = Inr (start_time seg)
                \<and> to_seconds (end_str sp) = Inr (end_time seg))) bag segs \<and>
      tag_cache lib' = tag_cache demo_library \<and> shuffle_pools lib' ''loop'' = Some [] \<and>
      bag' = shuffle (random_stream demo_env) 2 (map (Pair loop_video) loop_segments) \<and>
      get_random_segment_by_tag demo_env ''loop'' (lib', 2) =
        (resolve demo_env demo_library (last bag'),
         (lib'\<lparr>shuffle_pools := (shuffle_pools lib')(''loop'' \<mapsto> butlast bag')\<rparr>, 4))"
proof -
  let ?pool = "map (Pair loop_video) loop_segments"
  have h1: "tag_cache demo_library ''loop'' = Some ?pool"
    by code_simp
  have h2: "?pool \<noteq> []"
    by code_simp
  have h3: "shuffle_pools demo_library ''loop'' = None \<or> shuffle_pools demo_library ''loop'' = Some []"
    by (simp add: demo_library_def new_library_def)
  have h4: "\<forall>(v, sp) \<in> set ?pool. well_formed_time (start_str sp) \<and> well_formed_time (end_str sp)"
    by code_simp
  have n: "length ?pool = 3"
    by (simp add: loop_segments_def)
  have a1: "(0::nat) + (3 - 1) = 2" and a2: "(2::nat) + (3 - 1) = 4"
    by simp_all
  show ?thesis
    using shuffle_bag_cycle [OF h1 h2 h3 h4, of demo_env 0] by (simp only: n a1 a2)
qed

subsection \<open>What the methods leave unchanged\<close>

lemma preservesI: "(\<And>s. g (snd (m s)) = g s) \<Longrightarrow> preserves g m"
  by (simp add: preserves_def)

lemma preservesD: "preserves g m \<Longrightarrow> g (snd (m s)) = g s"
  by (simp add: preserves_def)

lemma preserves_ret: "preserves g (ret x)"
  by (simp add: preserves_def ret_def)

lemma preserves_raise: "preserves g (\<lambda>s. (Inl err, s))"
  by (simp add: preserves_def)

lemma preserves_modify: "(\<And>s. g (f s) = g s) \<Longrightarrow> preserves g (modify f)"
  by (simp add: preserves_def modify_def)

lemma preserves_then_do:
  assumes "preserves g m" and "\<And>x. preserves g (f x)"
  shows "preserves g (then_do m f)"
proof (rule preservesI)
  fix s
  show "g (snd (then_do m f s)) = g s"
  proof (cases "m s")
    case (Pair r s')
    have s': "g s' = g s" using preservesD [OF assms(1), of s] Pair by simp
    show ?thesis
    proof (cases r)
      case (Inl err)
      with Pair s' show ?thesis by (simp add: then_do_def)
    next
      case (Inr x)
      with Pair s' preservesD [OF assms(2), of x s'] show ?thesis by (simp add: then_do_def)
    qed
  qed
qed

lemma preserves_attempt: "preserves g m \<Longrightarrow> preserves g (attempt m)"
  by (simp add: preserves_def attempt_def)

lemma preserves_ws_call:
  assumes "\<And>s tr. g (s\<lparr>calls := tr\<rparr>) = g s"
  shows "preserves g (ws_call e rq)"
  using assms by (simp add: preserves_def ws_call_def)

lemma preserves_getSceneItemId: "preserves g (getSceneItemId r)"
  by (cases r) (simp_all add: getSceneItemId_def preserves_ret preserves_raise)

lemma preserves_set_item_enabled:
  assumes "\<And>s tr. g (s\<lparr>calls := tr\<rparr>) = g s"
  shows "preserves g (set_item_enabled e sc src b)"
  unfolding set_item_enabled_def
  by (intro preserves_then_do preserves_ws_call preserves_getSceneItemId assms)

lemma preserves_get_current_program_scene:
  assumes "\<And>s tr. g (s\<lparr>calls := tr\<rparr>) = g s"
  shows "preserves g (get_current_program_scene e)"
  using assms
  by (auto simp add: preserves_def get_current_program_scene_def ws_call_def
      split: sum.splits response.splits prod.splits)

lemma preserves_set_current_scene:
  assumes "\<And>s tr. g (s\<lparr>calls := tr\<rparr>) = g s"
  shows "preserves g (set_current_scene e n)"
  using assms
  by (auto simp add: preserves_def set_current_scene_def ws_call_def attempt_def
      split: sum.splits response.splits prod.splits)

lemma preserves_set_current_preview_scene:
  assumes "\<And>s tr. g (s\<lparr>calls := tr\<rparr>) = g s"
  shows "preserves g (set_current_preview_scene e n)"
  unfolding set_current_preview_scene_def
  by (intro preserves_attempt preserves_ws_call assms)

lemma preserves_read_media_cursor:
  assumes "\<And>s tr. g (s\<lparr>calls := tr\<rparr>) = g s"
  shows "preserves g (read_media_cursor e n)"
  using assms
  by (auto simp add: preserves_def read_media_cursor_def ws_call_def
      split: sum.splits response.splits prod.splits)

lemma wait_for_media_duration_state:
  assumes "\<And>s tr. g (s\<lparr>calls := tr\<rparr>) = g s"
  shows "g (snd (wait_for_media_duration e src n s)) = g s"
proof (induction n arbitrary: s)
  case 0
  show ?case by simp
next
  case (Suc n)
  have "g (snd (wait_for_media_duration e src n (s\<lparr>calls := calls s @ [GetMediaInputStatus src]\<rparr>))) = g s"
    using Suc [of "s\<lparr>calls := calls s @ [GetMediaInputStatus src]\<rparr>"] assms by simp
  then show ?case
    using assms
    by (auto simp add: ws_call_def split: sum.splits response.splits option.splits)
qed

lemma preserves_wait_for_media_duration:
  assumes "\<And>s tr. g (s\<lparr>calls := tr\<rparr>) = g s"
  shows "preserves g (wait_for_media_duration e src n)"
  by (rule preservesI) (rule wait_for_media_duration_state [OF assms])

lemma preserves_set_cursor_times:
  assumes "\<And>s tr. g (s\<lparr>calls := tr\<rparr>) = g s"
  shows "preserves g (set_cursor_times e src ms n)"
proof (induction n)
  case 0
  show ?case by (simp add: preserves_ret)
next
  case (Suc n)
  show ?case
    unfolding set_cursor_times.simps
    by (intro preserves_then_do preserves_ws_call assms Suc)
qed


lemmas preserves_intros =
  preserves_then_do preserves_ret preserves_raise preserves_attempt preserves_ws_call
  preserves_getSceneItemId preserves_set_item_enabled preserves_get_current_program_scene
  preserves_set_current_scene preserves_set_current_preview_scene preserves_read_media_cursor
  preserves_wait_for_media_duration preserves_set_cursor_times

lemma preserves_issue_play_commands:
  assumes "\<And>s tr. g (s\<lparr>calls := tr\<rparr>) = g s"
    and "\<And>s a b c. g (s\<lparr>ctl := (ctl s)\<lparr>is_timed_playback := a, current_target_scene := b,
            current_preview_target := c\<rparr>\<rparr>) = g s"
  shows "preserves g (issue_play_commands e sc src bg seg tgt pv hide)"
  unfolding issue_play_commands_def
  by (auto intro!: preserves_intros preserves_modify simp add: assms
      split: option.split time_val.split)

lemma counter_of_calls: "counter_of (s\<lparr>calls := tr\<rparr>) = counter_of s"
  by (simp add: counter_of_def)

lemma preserves_schedule_completion_counter:
  "preserves counter_of (schedule_completion e src seg tgt pv)"
  unfolding schedule_completion_def Let_def
  by (auto intro!: preserves_intros preserves_modify
      simp add: counter_of_def start_timer_def split: option.split time_val.split)

lemma preserves_play_video_segment_counter:
  "preserves counter_of (play_video_segment e sc src bg seg tgt pv hide)"
  unfolding play_video_segment_def
  by (intro preserves_then_do preserves_issue_play_commands preserves_schedule_completion_counter)
    (simp_all add: counter_of_def)

lemma preserves_library_select_counter: "preserves counter_of (library_select e tag)"
  by (auto simp add: preserves_def library_select_def counter_of_def split: option.splits prod.splits)

lemma preserves_play_standby_video_counter: "preserves counter_of (play_standby_video e)"
proof (rule preservesI)
  fix s :: system
  have "preserves counter_of (attempt
        (then_do (library_select e STANDBY) (\<lambda>segment.
         play_video_segment e (SCENE_EVENT (ctl s)) (SOURCE_MEDIA (ctl s)) (SOURCE_BG_MAIN (ctl s))
           segment (SCENE_MAIN (ctl s)) (Some (SCENE_PREVIEW (ctl s))) None)))"
    by (intro preserves_attempt preserves_then_do preserves_library_select_counter
        preserves_play_video_segment_counter)
  from preservesD [OF this, of s]
  show "counter_of (snd (play_standby_video e s)) = counter_of s"
    by (simp add: play_standby_video_def)
qed

lemma preserves_select_and_play_counter: "preserves counter_of (select_and_play e tag)"
  unfolding select_and_play_def
proof (intro preserves_then_do preserves_library_select_counter
    preserves_get_current_program_scene counter_of_calls)
  fix seg cur
  show "preserves counter_of (\<lambda>s. let transition = calculate_ab_transition (ctl s) cur
          in then_do (play_video_segment e (SCENE_EVENT (ctl s)) (SOURCE_MEDIA (ctl s))
                        (bg_source transition) seg (target_scene transition)
                        (Some (preview_scene transition)) (Some (hide_source transition)))
               (\<lambda>_. ret seg) s)"
  proof (rule preservesI)
    fix s :: system
    let ?t = "calculate_ab_transition (ctl s) cur"
    have "preserves counter_of (then_do (play_video_segment e (SCENE_EVENT (ctl s)) (SOURCE_MEDIA (ctl s))
                        (bg_source ?t) seg (target_scene ?t)
                        (Some (preview_scene ?t)) (Some (hide_source ?t)))
               (\<lambda>_. ret seg))"
      by (intro preserves_then_do preserves_play_video_segment_counter preserves_ret)
    from preservesD [OF this, of s]
    show "counter_of (snd (let transition = calculate_ab_transition (ctl s) cur
          in then_do (play_video_segment e (SCENE_EVENT (ctl s)) (SOURCE_MEDIA (ctl s))
                        (bg_source transition) seg (target_scene transition)
                        (Some (preview_scene transition)) (Some (hide_source transition)))
               (\<lambda>_. ret seg) s)) = counter_of s"
      by (simp add: Let_def)
  qed
qed

lemma preserves_handle_play_request_counter: "preserves counter_of (handle_play_request e tag)"
proof (cases "tag = STANDBY")
  case True
  then show ?thesis
    unfolding handle_play_request_def
    by (auto intro!: preserves_then_do preserves_modify preserves_play_standby_video_counter
        preserves_ret simp add: counter_of_def)
next
  case False
  have inner: "preserves counter_of (\<lambda>s. if library (ctl s) = None
                then (Inr \<lparr>status = ''error'', message = LibraryNotInitialized, code = 500\<rparr>, s)
                else (case select_and_play e tag s of
                        (Inr segment, s') \<Rightarrow>
                          (Inr \<lparr>status = ''success'', message = PlayingSegment segment,
                                code = 200\<rparr>, s')
                      | (Inl ValueError, s') \<Rightarrow>
                          (Inr \<lparr>status = ''error'', message = ErrorText ValueError,
                                code = 404\<rparr>, s')
                      | (Inl err, s') \<Rightarrow>
                          (Inr \<lparr>status = ''error'', message = InternalError err,
                                code = 500\<rparr>, s')))"
  proof (rule preservesI)
    fix s :: system
    show "counter_of (snd (if library (ctl s) = None
                then (Inr \<lparr>status = ''error'', message = LibraryNotInitialized, code = 500\<rparr>, s)
                else (case select_and_play e tag s of
                        (Inr segment, s') \<Rightarrow>
                          (Inr \<lparr>status = ''success'', message = PlayingSegment segment,
                                code = 200\<rparr>, s')
                      | (Inl ValueError, s') \<Rightarrow>
                          (Inr \<lparr>status = ''error'', message = ErrorText ValueError,
                                code = 404\<rparr>, s')
                      | (Inl err, s') \<Rightarrow>
                          (Inr \<lparr>status = ''error'', message = InternalError err,
                                code = 500\<rparr>, s')))) = counter_of s"
      using preservesD [OF preserves_select_and_play_counter, of e tag s]
      by (auto split: prod.splits sum.splits exn.splits)
  qed
  from False show ?thesis
    unfolding handle_play_request_def
    by (auto intro!: preserves_then_do preserves_modify inner simp add: counter_of_def)
qed

lemma timer_fire_counter: "counter_of (timer_fire e tid tgt pv s) = counter_of s"
  using preservesD [OF preserves_play_standby_video_counter, of e s]
    preservesD [OF preserves_set_current_scene, of counter_of e tgt s, OF counter_of_calls]
  by (auto simp add: timer_fire_def Let_def counter_of_def split: option.splits)

lemma run_thread_counter: "counter_of (run_thread e tid s) = counter_of s"
proof (cases "map_of (threads s) tid")
  case None
  then show ?thesis by (simp add: run_thread_def)
next
  case (Some th)
  let ?s0 = "s\<lparr>threads := filter (\<lambda>(i, _). i \<noteq> tid) (threads s)\<rparr>"
  have s0: "counter_of ?s0 = counter_of s" by (simp add: counter_of_def)
  show ?thesis
  proof (cases th)
    case (TimerStarted d tgt pv)
    with Some s0 timer_fire_counter [of e tid tgt pv ?s0] show ?thesis
      by (simp add: run_thread_def Let_def counter_of_def)
  next
    case (TimerSleeping tgt pv)
    with Some s0 timer_fire_counter [of e tid tgt pv ?s0] show ?thesis
      by (simp add: run_thread_def Let_def)
  next
    case (TimerSettling n)
    with Some s0 preservesD [OF preserves_set_current_preview_scene, of counter_of e n ?s0, OF counter_of_calls]
    show ?thesis by (simp add: run_thread_def Let_def counter_of_def)
  next
    case StandbyCallback
    with Some s0 preservesD [OF preserves_play_standby_video_counter, of e ?s0]
    show ?thesis by (simp add: run_thread_def Let_def)
  next
    case (PreviewDelayed n)
    with Some s0 preservesD [OF preserves_set_current_preview_scene, of counter_of e n ?s0, OF counter_of_calls]
    show ?thesis by (simp add: run_thread_def Let_def)
  qed
qed

subsection \<open>The transition between the two scenes\<close>

text \<open>
  C7. From the preview scene the transition goes to the main scene, shows the preview
  background and hides the main one; from every other current scene (also when OBS could
  not tell the scene) it goes to the preview scene, shows the main background and hides
  the preview one. From the main scene and then from the scene that this gives as target,
  the target is the main scene again.
\<close>

theorem ab_transition:
  "calculate_ab_transition c (Some (SCENE_PREVIEW c)) =
     \<lparr>target_scene = SCENE_MAIN c, preview_scene = SCENE_PREVIEW c,
      bg_source = SOURCE_BG_PREVIEW c, hide_source = SOURCE_BG_MAIN c\<rparr>
   \<and> (\<forall>cur. cur \<noteq> Some (SCENE_PREVIEW c) \<longrightarrow>
        calculate_ab_transition c cur =
          \<lparr>target_scene = SCENE_PREVIEW c, preview_scene = SCENE_MAIN c,
           bg_source = SOURCE_BG_MAIN c, hide_source = SOURCE_BG_PREVIEW c\<rparr>)
   \<and> target_scene (calculate_ab_transition c
        (Some (target_scene (calculate_ab_transition c (Some (SCENE_MAIN c)))))) = SCENE_MAIN c"
  by (simp add: calculate_ab_transition_def)

theorem ab_transition_witness:
  "calculate_ab_transition demo_controller (Some ''Preview'') =
     \<lparr>target_scene = ''Main'', preview_scene = ''Preview'',
      bg_source = ''PreviewBg'', hide_source = ''MainBg''\<rparr>
   \<and> calculate_ab_transition demo_controller (Some ''Event'') =
     \<lparr>target_scene = ''Preview'', preview_scene = ''Main'',
      bg_source = ''MainBg'', hide_source = ''PreviewBg''\<rparr>
   \<and> calculate_ab_transition demo_controller None =
     \<lparr>target_scene = ''Preview'', preview_scene = ''Main'',
      bg_source = ''MainBg'', hide_source = ''PreviewBg''\<rparr>
   \<and> target_scene (calculate_ab_transition demo_controller
        (Some (target_scene (calculate_ab_transition demo_controller (Some ''Main''))))) = ''Main''"
proof -
  have names: "SCENE_PREVIEW demo_controller = ''Preview''" "SCENE_MAIN demo_controller = ''Main''"
    "SOURCE_BG_MAIN demo_controller = ''MainBg''" "SOURCE_BG_PREVIEW demo_controller = ''PreviewBg''"
    by (simp_all add: demo_controller_def set_library_def demo_scenes_def)
  note t = ab_transition [of demo_controller, unfolded names]
  from t have a: "calculate_ab_transition demo_controller (Some ''Preview'') =
     \<lparr>target_scene = ''Main'', preview_scene = ''Preview'',
      bg_source = ''PreviewBg'', hide_source = ''MainBg''\<rparr>"
    by (rule conjunct1)
  from t have b: "\<forall>cur. cur \<noteq> Some ''Preview'' \<longrightarrow>
        calculate_ab_transition demo_controller cur =
          \<lparr>target_scene = ''Preview'', preview_scene = ''Main'',
           bg_source = ''MainBg'', hide_source = ''PreviewBg''\<rparr>"
    by (rule conjunct1 [OF conjunct2])
  from t have c: "target_scene (calculate_ab_transition demo_controller
        (Some (target_scene (calculate_ab_transition demo_controller (Some ''Main''))))) = ''Main''"
    by (rule conjunct2 [OF conjunct2])
  from b have b1: "calculate_ab_transition demo_controller (Some ''Event'') =
     \<lparr>target_scene = ''Preview'', preview_scene = ''Main'',
      bg_source = ''MainBg'', hide_source = ''PreviewBg''\<rparr>"
    by simp
  from b have b2: "calculate_ab_transition demo_controller None =
     \<lparr>target_scene = ''Preview'', preview_scene = ''Main'',
      bg_source = ''MainBg'', hide_source = ''PreviewBg''\<rparr>"
    by simp
  show ?thesis by (intro conjI a b1 b2 c)
qed

lemma play_standby_video_returns: "fst (play_standby_video e s) = Inr ()"
  by (simp add: play_standby_video_def attempt_def)

text \<open>
  C10. A play request for the standby tag returns the result with status \<open>success\<close> and
  code 200 in every state and with every OBS: without a library, with a catalog that has
  no standby segment, and when the play sequence raises. Nothing that fails inside
  \<open>play_standby_video\<close> reaches the result.
\<close>

theorem standby_request_always_succeeds:
  "fst (handle_play_request e STANDBY s) =
     Inr \<lparr>status = ''success'', message = StartedStandbyLoop, code = 200\<rparr>"
proof -
  let ?s1 = "s\<lparr>ctl := (ctl s)\<lparr>is_standby_mode := True\<rparr>\<rparr>"
  obtain s2 where "play_standby_video e ?s1 = (Inr (), s2)"
    using play_standby_video_returns [of e ?s1] by (cases "play_standby_video e ?s1") simp
  then show ?thesis
    by (simp add: handle_play_request_def then_do_def modify_def ret_def)
qed


lemma library_select_unknown:
  assumes "library (ctl s) = Some lib" and "tag_cache lib tag = None \<or> tag_cache lib tag = Some []"
  shows "library_select e tag s = (Inl ValueError, s)"
  using assms by (auto simp add: library_select_def get_random_segment_by_tag_def)

lemma select_and_play_unknown:
  assumes "library (ctl s) = Some lib" and "tag_cache lib tag = None \<or> tag_cache lib tag = Some []"
  shows "select_and_play e tag s = (Inl ValueError, s)"
  using library_select_unknown [OF assms, of e]
  by (simp add: select_and_play_def then_do_def)

lemma library_leave_standby: "library (ctl (leave_standby s)) = library (ctl s)"
  by (simp add: leave_standby_def)

lemma handle_play_request_other:
  assumes "tag \<noteq> STANDBY"
  shows "handle_play_request e tag s =
    (if library (ctl s) = None
     then (Inr \<lparr>status = ''error'', message = LibraryNotInitialized, code = 500\<rparr>, leave_standby s)
     else (case select_and_play e tag (leave_standby s) of
             (Inr segment, s') \<Rightarrow>
               (Inr \<lparr>status = ''success'', message = PlayingSegment segment, code = 200\<rparr>, s')
           | (Inl ValueError, s') \<Rightarrow>
               (Inr \<lparr>status = ''error'', message = ErrorText ValueError, code = 404\<rparr>, s')
           | (Inl err, s') \<Rightarrow>
               (Inr \<lparr>status = ''error'', message = InternalError err, code = 500\<rparr>, s')))"
proof -
  have "handle_play_request e tag s =
    (if library (ctl (leave_standby s)) = None
     then (Inr \<lparr>status = ''error'', message = LibraryNotInitialized, code = 500\<rparr>, leave_standby s)
     else (case select_and_play e tag (leave_standby s) of
             (Inr segment, s') \<Rightarrow>
               (Inr \<lparr>status = ''success'', message = PlayingSegment segment, code = 200\<rparr>, s')
           | (Inl ValueError, s') \<Rightarrow>
               (Inr \<lparr>status = ''error'', message = ErrorText ValueError, code = 404\<rparr>, s')
           | (Inl err, s') \<Rightarrow>
               (Inr \<lparr>status = ''error'', message = InternalError err, code = 500\<rparr>, s')))"
    using assms
    by (simp only: handle_play_request_def then_do_def modify_def leave_standby_def
        if_False prod.case sum.case)
  then show ?thesis by (simp only: library_leave_standby)
qed

lemma play_request_code:
  assumes "tag \<noteq> STANDBY" and "library (ctl s) = Some lib"
    and "select_and_play e tag (leave_standby s) = (res, s')"
  shows "\<exists>r. handle_play_request e tag s = (Inr r, s')
      \<and> code r = (case res of Inr segment \<Rightarrow> 200
                   | Inl err \<Rightarrow> if err = ValueError then 404 else 500)"
proof (cases res)
  case (Inr segment)
  with assms show ?thesis by (simp add: handle_play_request_other)
next
  case (Inl err)
  with assms show ?thesis by (cases err) (simp_all add: handle_play_request_other)
qed

text \<open>
  C9, amended. For every tag other than the standby tag \<open>handle_play_request\<close> returns a
  result and raises nothing; its code is 200, 404 or 500; it is 500 when the controller
  has no library, 404 when the tag is not in the catalog or has no segment, and with a
  library it is 200 when the selection and the play sequence raise nothing, 404 when they
  raise a \<open>ValueError\<close> and 500 when they raise anything else.
\<close>

theorem play_request_codes:
  assumes "tag \<noteq> STANDBY"
  shows "\<exists>r. fst (handle_play_request e tag s) = Inr r
      \<and> (code r = 200 \<or> code r = 404 \<or> code r = 500)
      \<and> (library (ctl s) = None \<longrightarrow> code r = 500)
      \<and> (\<forall>lib. library (ctl s) = Some lib
            \<and> (tag_cache lib tag = None \<or> tag_cache lib tag = Some []) \<longrightarrow> code r = 404)
      \<and> (library (ctl s) \<noteq> None \<longrightarrow>
           code r = (case fst (select_and_play e tag (leave_standby s)) of
                       Inr segment \<Rightarrow> 200
                     | Inl err \<Rightarrow> if err = ValueError then 404 else 500))"
proof (cases "library (ctl s)")
  case None
  then show ?thesis
    by (simp add: handle_play_request_other [OF assms])
next
  case (Some lib)
  have lib: "library (ctl (leave_standby s)) = Some lib"
    using Some by (simp add: library_leave_standby)
  obtain res s' where run: "select_and_play e tag (leave_standby s) = (res, s')"
    by (cases "select_and_play e tag (leave_standby s)")
  obtain r where r: "handle_play_request e tag s = (Inr r, s')"
    and c: "code r = (case res of Inr segment \<Rightarrow> 200
                      | Inl err \<Rightarrow> if err = ValueError then 404 else 500)"
    using play_request_code [OF assms Some run] by blast
  have codes: "code r = 200 \<or> code r = 404 \<or> code r = 500"
    using c by (cases res) (simp_all split: if_splits)
  have unknown: "code r = 404"
    if "tag_cache lib tag = None \<or> tag_cache lib tag = Some []"
  proof -
    have "res = Inl ValueError"
      using select_and_play_unknown [OF lib that, of e] run by simp
    with c show ?thesis by simp
  qed
  have f1: "fst (handle_play_request e tag s) = Inr r" using r by simp
  have f2: "library (ctl s) = None \<longrightarrow> code r = 500" using Some by simp
  have f3: "\<forall>lib'. library (ctl s) = Some lib'
            \<and> (tag_cache lib' tag = None \<or> tag_cache lib' tag = Some []) \<longrightarrow> code r = 404"
    using Some unknown by auto
  have f4: "library (ctl s) \<noteq> None \<longrightarrow>
           code r = (case fst (select_and_play e tag (leave_standby s)) of
                       Inr segment \<Rightarrow> 200
                     | Inl err \<Rightarrow> if err = ValueError then 404 else 500)"
    using c run by simp
  show ?thesis
    by (rule exI [of _ r]) (intro conjI f1 codes f2 f3 f4)
qed


text \<open>
  C9 as stated fails for the standby tag: the request returns 200 when the controller has
  no library, where C9 gives 500, and when the catalog has no standby segment, where
  C9 gives 404.
\<close>

theorem standby_code_counterexample:
  "library (ctl bare_system) = None
   \<and> fst (handle_play_request demo_env STANDBY bare_system) =
       Inr \<lparr>status = ''success'', message = StartedStandbyLoop, code = 200\<rparr>
   \<and> library (ctl demo_system) = Some demo_library
   \<and> tag_cache demo_library STANDBY = None
   \<and> fst (handle_play_request demo_env STANDBY demo_system) =
       Inr \<lparr>status = ''success'', message = StartedStandbyLoop, code = 200\<rparr>"
proof -
  have none: "library (ctl bare_system) = None"
    by (simp add: bare_system_def new_controller_def)
  have r1: "fst (handle_play_request demo_env STANDBY bare_system) =
       Inr \<lparr>status = ''success'', message = StartedStandbyLoop, code = 200\<rparr>"
    by code_simp
  have lib: "library (ctl demo_system) = Some demo_library"
    by (simp add: demo_system_def demo_controller_def set_library_def)
  have absent: "tag_cache demo_library STANDBY = None"
    by code_simp
  have r2: "fst (handle_play_request demo_env STANDBY demo_system) =
       Inr \<lparr>status = ''success'', message = StartedStandbyLoop, code = 200\<rparr>"
    by code_simp
  show ?thesis by (intro conjI none r1 lib absent r2)
qed

theorem play_request_codes_witness:
  "''outro'' \<noteq> STANDBY
   \<and> (\<exists>r. fst (handle_play_request demo_env ''outro'' demo_system) = Inr r \<and> code r = 404)
   \<and> (\<exists>r. fst (handle_play_request demo_env ''outro'' bare_system) = Inr r \<and> code r = 500)"
proof -
  have h: "''outro'' \<noteq> STANDBY"
    by (simp add: STANDBY_def)
  have lib: "library (ctl demo_system) = Some demo_library"
    by (simp add: demo_system_def demo_controller_def set_library_def)
  have absent: "tag_cache demo_library ''outro'' = None"
    by code_simp
  have none: "library (ctl bare_system) = None"
    by (simp add: bare_system_def new_controller_def)
  from play_request_codes [OF h, of demo_env demo_system] lib absent
  have a: "\<exists>r. fst (handle_play_request demo_env ''outro'' demo_system) = Inr r \<and> code r = 404"
    by blast
  from play_request_codes [OF h, of demo_env bare_system] none
  have b: "\<exists>r. fst (handle_play_request demo_env ''outro'' bare_system) = Inr r \<and> code r = 500"
    by blast
  show ?thesis by (intro conjI h a b)
qed

subsection \<open>The counter of ignored end events\<close>

text \<open>
  C2 fails on the code. \<open>play_video_segment\<close> leaves \<open>ignore_end_event_counter\<close> as it
  is, for every input and whatever OBS answers, although it sends \<open>SetInputSettings\<close>:
  on the demo system the request for \<open>intro\<close> binds the source to the new file and the
  counter, which \<open>__init__\<close> never creates, is still absent.
\<close>

theorem rebind_leaves_counter:
  "ignore_end_event_counter (ctl (snd (play_video_segment e sc src bg seg tgt pv hide s))) =
     ignore_end_event_counter (ctl s)
   \<and> SetInputSettings ''Media'' ''raw/intro.mp4'' \<in>
       set (calls (snd (handle_play_request demo_env ''intro'' demo_system)))
   \<and> ignore_end_event_counter (ctl (snd (handle_play_request demo_env ''intro'' demo_system))) = None"
proof -
  have g: "ignore_end_event_counter (ctl (snd (play_video_segment e sc src bg seg tgt pv hide s))) =
     ignore_end_event_counter (ctl s)"
    using preservesD [OF preserves_play_video_segment_counter, of e sc src bg seg tgt pv hide s]
    by (simp add: counter_of_def)
  have c1: "SetInputSettings ''Media'' ''raw/intro.mp4'' \<in>
       set (calls (snd (handle_play_request demo_env ''intro'' demo_system)))"
    by code_simp
  have c2: "ignore_end_event_counter (ctl (snd (handle_play_request demo_env ''intro'' demo_system))) = None"
    by code_simp
  show ?thesis by (intro conjI g c1 c2)
qed

lemma spawn_counter: "counter_of (spawn th s) = counter_of s"
  by (simp add: spawn_def counter_of_def)

lemma media_event_counter:
  assumes "counter_not_negative s"
  shows "counter_not_negative (snd (on_media_input_playback_state_changed e input_name state s))"
proof (cases "counter_of s")
  case None
  with assms show ?thesis
    by (simp add: on_media_input_playback_state_changed_def counter_of_def)
next
  case (Some n)
  show ?thesis
  proof (cases "n > 0")
    case True
    with Some assms show ?thesis
      by (simp add: on_media_input_playback_state_changed_def counter_of_def
          counter_not_negative_def)
  next
    case False
    have scene: "\<And>t. counter_of (snd (set_current_scene e t s)) = counter_of s"
      using preservesD [OF preserves_set_current_scene, of counter_of e _ s, OF counter_of_calls] .
    have "counter_of (snd (on_media_input_playback_state_changed e input_name state s)) = counter_of s"
      using Some False scene
      by (auto simp add: on_media_input_playback_state_changed_def Let_def spawn_counter
          counter_of_def [of s] split: option.splits)
    with assms show ?thesis by (simp add: counter_not_negative_def)
  qed
qed

lemma step_counter:
  assumes "counter_not_negative s"
  shows "counter_not_negative (step e s ev)"
proof (cases ev)
  case (PlayRequest tag)
  with assms preservesD [OF preserves_handle_play_request_counter, of e tag s] show ?thesis
    by (simp add: step_def counter_not_negative_def)
next
  case (MediaInputPlaybackStateChanged input_name state)
  with media_event_counter [OF assms] show ?thesis
    by (simp add: step_def)
next
  case (ThreadRuns tid)
  with assms run_thread_counter [of e tid s] show ?thesis
    by (simp add: step_def counter_not_negative_def)
qed

lemma run_counter: "counter_not_negative s \<Longrightarrow> counter_not_negative (run e s evs)"
  unfolding run_def
  by (induction evs arbitrary: s) (simp_all add: step_counter)

text \<open>
  C4. When the event \<open>OBS_MEDIA_STATE_ENDED\<close> of the controlled source arrives and the
  counter is above zero, the handler returns with the counter one lower and nothing else
  changed: no request goes to OBS and no thread starts, so neither the restore nor the
  standby step runs. And when the counter is absent or not negative, it is so after every
  sequence of play requests, media events and thread steps.
\<close>

theorem stale_event_discarded:
  "(ignore_end_event_counter (ctl s) = Some n \<and> 0 < n \<longrightarrow>
      on_media_input_playback_state_changed e (SOURCE_MEDIA (ctl s)) ''OBS_MEDIA_STATE_ENDED'' s =
        (Inr (), s\<lparr>ctl := (ctl s)\<lparr>ignore_end_event_counter := Some (n - 1)\<rparr>\<rparr>))
   \<and> (counter_not_negative s \<longrightarrow> counter_not_negative (run e s evs))"
  by (simp add: on_media_input_playback_state_changed_def run_counter)

theorem stale_event_discarded_witness:
  "on_media_input_playback_state_changed demo_env ''Media'' ''OBS_MEDIA_STATE_ENDED'' counting_system =
     (Inr (), counting_system\<lparr>ctl := (ctl counting_system)\<lparr>ignore_end_event_counter := Some 1\<rparr>\<rparr>)
   \<and> counter_not_negative (run demo_env counting_system
        [MediaInputPlaybackStateChanged ''Media'' ''OBS_MEDIA_STATE_ENDED'',
         PlayRequest ''intro'',
         MediaInputPlaybackStateChanged ''Media'' ''OBS_MEDIA_STATE_ENDED'',
         ThreadRuns 0,
         MediaInputPlaybackStateChanged ''Media'' ''OBS_MEDIA_STATE_ENDED''])"
proof -
  have c: "ignore_end_event_counter (ctl counting_system) = Some 2 \<and> (0::int) < 2"
    by (simp add: counting_system_def)
  have m: "SOURCE_MEDIA (ctl counting_system) = ''Media''"
    by (simp add: counting_system_def demo_controller_def set_library_def demo_scenes_def)
  have nn: "counter_not_negative counting_system"
    by (simp add: counter_not_negative_def counter_of_def counting_system_def)
  note t = stale_event_discarded [of counting_system 2 demo_env
        "[MediaInputPlaybackStateChanged ''Media'' ''OBS_MEDIA_STATE_ENDED'',
         PlayRequest ''intro'',
         MediaInputPlaybackStateChanged ''Media'' ''OBS_MEDIA_STATE_ENDED'',
         ThreadRuns 0,
         MediaInputPlaybackStateChanged ''Media'' ''OBS_MEDIA_STATE_ENDED'']"]
  from t c m have a: "on_media_input_playback_state_changed demo_env ''Media'' ''OBS_MEDIA_STATE_ENDED'' counting_system =
     (Inr (), counting_system\<lparr>ctl := (ctl counting_system)\<lparr>ignore_end_event_counter := Some 1\<rparr>\<rparr>)"
    by simp
  from t nn have b: "counter_not_negative (run demo_env counting_system
        [MediaInputPlaybackStateChanged ''Media'' ''OBS_MEDIA_STATE_ENDED'',
         PlayRequest ''intro'',
         MediaInputPlaybackStateChanged ''Media'' ''OBS_MEDIA_STATE_ENDED'',
         ThreadRuns 0,
         MediaInputPlaybackStateChanged ''Media'' ''OBS_MEDIA_STATE_ENDED''])"
    by simp
  show ?thesis by (intro conjI a b)
qed

subsection \<open>The end of the play sequence\<close>

lemma then_do_returns: "m s = (Inr x, s1) \<Longrightarrow> then_do m f s = f x s1"
  by (simp add: then_do_def)

lemma then_do_raises: "m s = (Inl err, s1) \<Longrightarrow> then_do m f s = (Inl err, s1)"
  by (simp add: then_do_def)

lemma to_seconds_five: "to_seconds ''00:00:05.0'' = Inr (Seconds 5)"
  by code_simp

lemma to_seconds_ten: "to_seconds ''00:00:10.0'' = Inr (Seconds 10)"
  by code_simp

lemma shuffle_single: "shuffle r p [x] = [x]"
  by (simp add: shuffle_def)

lemma select_single:
  assumes "tag_cache lib tag = Some [c]"
    and "case shuffle_pools lib tag of None \<Rightarrow> True | Some b \<Rightarrow> set b \<subseteq> {c}"
  shows "fst (get_random_segment_by_tag e tag (lib, p)) = resolve e lib c"
proof (cases "shuffle_pools lib tag")
  case None
  then show ?thesis
    using refill_step [OF assms(1), of e p] by (simp add: shuffle_single)
next
  case (Some b)
  show ?thesis
  proof (cases "b = []")
    case True
    with Some show ?thesis
      using refill_step [OF assms(1), of e p] by (simp add: shuffle_single)
  next
    case False
    then have b: "b = butlast b @ [last b]" by simp
    have "last b \<in> set b" using False by simp
    with assms(2) Some have l: "last b = c" by auto
    have "shuffle_pools lib tag = Some (butlast b @ [c])"
      using Some b l by simp
    from pop_step [OF assms(1) _ this, of e p] show ?thesis by simp
  qed
qed

lemma wait_first_poll:
  assumes "obs e (calls s) (GetMediaInputStatus src) = Inr (MediaStatus (Some d) c)" and "0 < d"
  shows "wait_for_media_duration e src (Suc n) s =
    (Inr d, s\<lparr>calls := calls s @ [GetMediaInputStatus src]\<rparr>)"
  using assms by (simp add: ws_call_def)

lemma schedule_completion_timed:
  assumes "\<forall>tr. obs e tr (GetMediaInputStatus src) = Inr (MediaStatus (Some 20000) (Some 5000))"
    and "start_time seg = Seconds 5" and "end_time seg = Seconds 10"
  shows "schedule_completion e src seg tgt pv s =
     (Inr (), start_timer (26 / 5) tgt pv
        (s\<lparr>calls := calls s @ [GetMediaInputStatus src, GetMediaInputStatus src]\<rparr>))"
proof -
  have w: "wait_for_media_duration e src 20 s =
      (Inr 20000, s\<lparr>calls := calls s @ [GetMediaInputStatus src]\<rparr>)"
    using wait_first_poll [of e s src 20000 "Some 5000" 19] assms(1) by simp
  show ?thesis
    by (simp add: schedule_completion_def then_do_def w assms read_media_cursor_def
        ws_call_def modify_def)
qed

text \<open>
  C6. Let a tag have the single segment from \<open>00:00:05.0\<close> to \<open>00:00:10.0\<close> of a video
  with volume multiplier 0.8, with no clip of it on disk (and a shuffle pool that holds
  nothing but pairs of the tag, as every pool does). Selecting the tag returns the raw file
  with start 5 s, end 10 s and volume 0.8. When the media status reports a duration of
  20000 ms and the cursor at 5000 ms, the end of the play sequence arms a timer of
  \<open>(10 - 5) + 0.2 = 26/5\<close> seconds for the target and the preview of the call and sets
  \<open>is_timed_playback\<close>; so does \<open>play_video_segment\<close> as a whole whenever none of its
  commands raises: the new timer thread is the active one.
\<close>

theorem intro_end_to_end:
  assumes "tag_cache lib tag = Some [(v, sp)]"
    and "start_str sp = ''00:00:05.0''" and "end_str sp = ''00:00:10.0''"
    and "volume_multiplier_opt v = Some (8 / 10)"
    and "case shuffle_pools lib tag of None \<Rightarrow> True | Some b \<Rightarrow> set b \<subseteq> {(v, sp)}"
    and "\<not> path_exists e (clipped_path_of e lib (v, sp))"
    and "\<forall>tr. obs e tr (GetMediaInputStatus src) = Inr (MediaStatus (Some 20000) (Some 5000))"
    and "seg = \<lparr>file_path = abspath_join e (raw_dir lib) (file_name v), start_time = Seconds 5,
                end_time = Seconds 10, volume_multiplier = 8 / 10\<rparr>"
  shows "fst (get_random_segment_by_tag e tag (lib, p)) = Inr seg
    \<and> schedule_completion e src seg tgt pv s =
        (Inr (), start_timer (26 / 5) tgt pv
           (s\<lparr>calls := calls s @ [GetMediaInputStatus src, GetMediaInputStatus src]\<rparr>))
    \<and> (fst (play_video_segment e sc src bg seg tgt pv hide s) = Inr () \<longrightarrow>
          is_timed_playback (ctl (snd (play_video_segment e sc src bg seg tgt pv hide s)))
        \<and> active_timer_thread (ctl (snd (play_video_segment e sc src bg seg tgt pv hide s))) =
            Some (next_tid s)
        \<and> threads (snd (play_video_segment e sc src bg seg tgt pv hide s)) =
            threads s @ [(next_tid s, TimerStarted (26 / 5) tgt pv)])"
proof -
  have res: "resolve e lib (v, sp) = Inr seg"
    using assms(2,3,4,6,8)
    by (simp add: resolve_def Let_def to_seconds_five to_seconds_ten)
  have sel: "fst (get_random_segment_by_tag e tag (lib, p)) = Inr seg"
    using select_single [OF assms(1,5), of e p] res by simp
  have st: "start_time seg = Seconds 5" and en: "end_time seg = Seconds 10"
    using assms(8) by simp_all
  have sch: "\<And>s'. schedule_completion e src seg tgt pv s' =
        (Inr (), start_timer (26 / 5) tgt pv
           (s'\<lparr>calls := calls s' @ [GetMediaInputStatus src, GetMediaInputStatus src]\<rparr>))"
    using schedule_completion_timed [OF assms(7) st en] .
  have play: "is_timed_playback (ctl (snd (play_video_segment e sc src bg seg tgt pv hide s)))
        \<and> active_timer_thread (ctl (snd (play_video_segment e sc src bg seg tgt pv hide s))) =
            Some (next_tid s)
        \<and> threads (snd (play_video_segment e sc src bg seg tgt pv hide s)) =
            threads s @ [(next_tid s, TimerStarted (26 / 5) tgt pv)]"
    if ok: "fst (play_video_segment e sc src bg seg tgt pv hide s) = Inr ()"
  proof -
    obtain r s1 where iss: "issue_play_commands e sc src bg seg tgt pv hide s = (r, s1)"
      by (cases "issue_play_commands e sc src bg seg tgt pv hide s")
    have frame: "(threads s1, next_tid s1) = (threads s, next_tid s)"
      using preservesD [OF preserves_issue_play_commands,
          of "\<lambda>s. (threads s, next_tid s)" e sc src bg seg tgt pv hide s] iss
      by simp
    show ?thesis
    proof (cases r)
      case (Inl err)
      with iss ok show ?thesis
        by (simp add: play_video_segment_def then_do_def)
    next
      case (Inr u)
      with iss have "play_video_segment e sc src bg seg tgt pv hide s =
          schedule_completion e src seg tgt pv s1"
        by (simp add: play_video_segment_def then_do_def)
      with frame show ?thesis
        by (simp add: sch start_timer_def)
    qed
  qed
  show ?thesis
    using sel sch [of s] play by blast
qed


theorem intro_end_to_end_witness:
  "fst (get_random_segment_by_tag demo_env ''intro'' (demo_library, 0)) = Inr intro_resolved
   \<and> fst (play_video_segment demo_env ''Event'' ''Media'' ''MainBg'' intro_resolved ''Preview''
          (Some ''Main'') (Some ''PreviewBg'') demo_system) = Inr ()
   \<and> is_timed_playback (ctl (snd (play_video_segment demo_env ''Event'' ''Media'' ''MainBg''
          intro_resolved ''Preview'' (Some ''Main'') (Some ''PreviewBg'') demo_system)))
   \<and> active_timer_thread (ctl (snd (play_video_segment demo_env ''Event'' ''Media'' ''MainBg''
          intro_resolved ''Preview'' (Some ''Main'') (Some ''PreviewBg'') demo_system))) = Some 0
   \<and> threads (snd (play_video_segment demo_env ''Event'' ''Media'' ''MainBg''
          intro_resolved ''Preview'' (Some ''Main'') (Some ''PreviewBg'') demo_system)) =
       [(0, TimerStarted (26 / 5) ''Preview'' (Some ''Main''))]"
proof -
  have h1: "tag_cache demo_library ''intro'' = Some [(intro_video, intro_segment)]"
    by code_simp
  have h2: "start_str intro_segment = ''00:00:05.0''" and h3: "end_str intro_segment = ''00:00:10.0''"
    by (simp_all add: intro_segment_def)
  have h4: "volume_multiplier_opt intro_video = Some (8 / 10)"
    by (simp add: intro_video_def)
  have h5: "case shuffle_pools demo_library ''intro'' of None \<Rightarrow> True
            | Some b \<Rightarrow> set b \<subseteq> {(intro_video, intro_segment)}"
    by (simp add: demo_library_def new_library_def)
  have h6: "\<not> path_exists demo_env (clipped_path_of demo_env demo_library (intro_video, intro_segment))"
    by (simp add: demo_env_def)
  have h7: "\<forall>tr. obs demo_env tr (GetMediaInputStatus ''Media'') =
      Inr (MediaStatus (Some 20000) (Some 5000))"
    by (simp add: demo_env_def demo_obs_def)
  have h8: "intro_resolved =
      \<lparr>file_path = abspath_join demo_env (raw_dir demo_library) (file_name intro_video),
       start_time = Seconds 5, end_time = Seconds 10, volume_multiplier = 8 / 10\<rparr>"
    by (simp add: intro_resolved_def demo_env_def demo_library_def new_library_def intro_video_def)
  have ok: "fst (play_video_segment demo_env ''Event'' ''Media'' ''MainBg'' intro_resolved ''Preview''
          (Some ''Main'') (Some ''PreviewBg'') demo_system) = Inr ()"
    by code_simp
  have t0: "threads demo_system = []" and n0: "next_tid demo_system = 0"
    by (simp_all add: demo_system_def)
  note t = intro_end_to_end [OF h1 h2 h3 h4 h5 h6 h7 h8, of 0 "''Preview''" "Some ''Main''"
      demo_system "''Event''" "''MainBg''" "Some ''PreviewBg''"]
  from t have sel: "fst (get_random_segment_by_tag demo_env ''intro'' (demo_library, 0)) =
      Inr intro_resolved"
    by (rule conjunct1)
  from t ok have rest: "is_timed_playback (ctl (snd (play_video_segment demo_env ''Event'' ''Media''
          ''MainBg'' intro_resolved ''Preview'' (Some ''Main'') (Some ''PreviewBg'') demo_system)))
   \<and> active_timer_thread (ctl (snd (play_video_segment demo_env ''Event'' ''Media'' ''MainBg''
          intro_resolved ''Preview'' (Some ''Main'') (Some ''PreviewBg'') demo_system))) = Some 0
   \<and> threads (snd (play_video_segment demo_env ''Event'' ''Media'' ''MainBg''
          intro_resolved ''Preview'' (Some ''Main'') (Some ''PreviewBg'') demo_system)) =
       [(0, TimerStarted (26 / 5) ''Preview'' (Some ''Main''))]"
    by (simp add: t0 n0)
  show ?thesis
    using sel ok rest by (intro conjI) simp_all
qed

lemma wait_all_raise:
  assumes "\<And>tr. obs e tr (GetMediaInputStatus src) = Inl err"
  shows "wait_for_media_duration e src n s =
    (Inr (- 1), s\<lparr>calls := calls s @ replicate n (GetMediaInputStatus src)\<rparr>)"
proof (induction n arbitrary: s)
  case 0
  show ?case by simp
next
  case (Suc n)
  have "wait_for_media_duration e src (Suc n) s =
      wait_for_media_duration e src n (s\<lparr>calls := calls s @ [GetMediaInputStatus src]\<rparr>)"
    by (simp add: ws_call_def assms)
  also have "\<dots> = (Inr (- 1), s\<lparr>calls := (calls s @ [GetMediaInputStatus src])
      @ replicate n (GetMediaInputStatus src)\<rparr>)"
    by (simp add: Suc)
  finally show ?case by (simp add: replicate_app_Cons_same)
qed

lemma silent_status: "obs silent_env tr (GetMediaInputStatus src) = Inl MessageTimeout"
  by (simp add: silent_env_def silent_obs_def)

lemma silent_schedule:
  "schedule_completion silent_env ''Media'' intro_resolved tgt pv s =
     (Inr (), start_timer (26 / 5) tgt pv
        (s\<lparr>calls := calls s @ replicate 21 (GetMediaInputStatus ''Media'')\<rparr>))"
proof -
  let ?G = "GetMediaInputStatus ''Media''"
  have w: "wait_for_media_duration silent_env ''Media'' 20 s =
     (Inr (- 1), s\<lparr>calls := calls s @ replicate 20 ?G\<rparr>)"
    by (rule wait_all_raise) (rule silent_status)
  have r: "?G # replicate 20 ?G = replicate 21 ?G"
  proof -
    have "?G # replicate 20 ?G = replicate (Suc 20) ?G"
      by (simp only: replicate_Suc)
    moreover have "Suc 20 = 21" by simp
    ultimately show ?thesis by (simp only:)
  qed
  have r': "replicate 20 ?G @ [?G] = replicate 21 ?G"
    using r by (simp only: replicate_append_same)
  show ?thesis
    by (simp add: schedule_completion_def then_do_def w intro_resolved_def read_media_cursor_def
        ws_call_def silent_status modify_def r r')
qed

text \<open>
  C5 fails on the code for a segment with a numeric end. With an OBS whose media status
  never answers, all 20 polls of the duration fail and \<open>_wait_for_media_duration\<close>
  returns -1; for the segment from 5 s to 10 s the end of the play sequence still arms a
  timer of 26/5 seconds and sets \<open>is_timed_playback\<close>, in every state, and so does the
  whole of \<open>play_video_segment\<close> on the demo system, where it raises nothing.
\<close>

theorem failed_polls_still_arm_timer:
  "wait_for_media_duration silent_env ''Media'' 20 s =
     (Inr (- 1), s\<lparr>calls := calls s @ replicate 20 (GetMediaInputStatus ''Media'')\<rparr>)
   \<and> schedule_completion silent_env ''Media'' intro_resolved tgt pv s =
     (Inr (), start_timer (26 / 5) tgt pv
        (s\<lparr>calls := calls s @ replicate 21 (GetMediaInputStatus ''Media'')\<rparr>))
   \<and> is_timed_playback (ctl (snd (schedule_completion silent_env ''Media'' intro_resolved tgt pv s)))
   \<and> active_timer_thread (ctl (snd (schedule_completion silent_env ''Media'' intro_resolved tgt pv s)))
       = Some (next_tid s)
   \<and> threads (snd (schedule_completion silent_env ''Media'' intro_resolved tgt pv s)) =
       threads s @ [(next_tid s, TimerStarted (26 / 5) tgt pv)]
   \<and> fst (play_video_segment silent_env ''Event'' ''Media'' ''MainBg'' intro_resolved ''Preview''
          (Some ''Main'') (Some ''PreviewBg'') demo_system) = Inr ()
   \<and> is_timed_playback (ctl (snd (play_video_segment silent_env ''Event'' ''Media'' ''MainBg''
          intro_resolved ''Preview'' (Some ''Main'') (Some ''PreviewBg'') demo_system)))
   \<and> active_timer_thread (ctl (snd (play_video_segment silent_env ''Event'' ''Media'' ''MainBg''
          intro_resolved ''Preview'' (Some ''Main'') (Some ''PreviewBg'') demo_system))) \<noteq> None"
proof -
  let ?G = "GetMediaInputStatus ''Media''"
  let ?issue = "issue_play_commands silent_env ''Event'' ''Media'' ''MainBg'' intro_resolved
      ''Preview'' (Some ''Main'') (Some ''PreviewBg'') demo_system"
  have w: "wait_for_media_duration silent_env ''Media'' 20 s =
     (Inr (- 1), s\<lparr>calls := calls s @ replicate 20 ?G\<rparr>)"
    by (rule wait_all_raise) (rule silent_status)
  note sc = silent_schedule [of tgt pv s]
  have issued: "fst ?issue = Inr ()"
    by code_simp
  then have "?issue = (Inr (), snd ?issue)"
    by (cases ?issue) simp
  then have play: "play_video_segment silent_env ''Event'' ''Media'' ''MainBg'' intro_resolved
      ''Preview'' (Some ''Main'') (Some ''PreviewBg'') demo_system =
      schedule_completion silent_env ''Media'' intro_resolved ''Preview'' (Some ''Main'') (snd ?issue)"
    unfolding play_video_segment_def by (rule then_do_returns)
  have p1: "fst (play_video_segment silent_env ''Event'' ''Media'' ''MainBg'' intro_resolved ''Preview''
          (Some ''Main'') (Some ''PreviewBg'') demo_system) = Inr ()"
    by (simp add: play silent_schedule)
  have p2: "is_timed_playback (ctl (snd (play_video_segment silent_env ''Event'' ''Media'' ''MainBg''
          intro_resolved ''Preview'' (Some ''Main'') (Some ''PreviewBg'') demo_system)))"
    by (simp add: play silent_schedule start_timer_def)
  have p3: "active_timer_thread (ctl (snd (play_video_segment silent_env ''Event'' ''Media'' ''MainBg''
          intro_resolved ''Preview'' (Some ''Main'') (Some ''PreviewBg'') demo_system))) \<noteq> None"
    by (simp add: play silent_schedule start_timer_def)
  show ?thesis
    by (intro conjI w sc p1 p2 p3) (simp_all add: sc start_timer_def)
qed

subsection \<open>A timer that a later request has replaced\<close>

text \<open>
  C3 fails on the code. On the demo system a first request for \<open>intro\<close> arms timer 0;
  the timer passes its identity check (line 227) and sleeps; a second request arms timer 1,
  which is now the active one. When timer 0 wakes it does not look at the active timer
  again: it asks for the scene list and switches the program scene to \<open>Preview\<close>, then
  sets the preview scene and clears \<open>active_timer_thread\<close>, while timer 1 is still
  waiting for its own check.
\<close>

theorem superseded_timer_restores:
  "active_timer_thread (ctl (run demo_env demo_system
       [PlayRequest ''intro'', ThreadRuns 0, PlayRequest ''intro''])) = Some 1
   \<and> map_of (threads (run demo_env demo_system
       [PlayRequest ''intro'', ThreadRuns 0, PlayRequest ''intro''])) 0 =
       Some (TimerSleeping ''Preview'' (Some ''Main''))
   \<and> calls (run demo_env demo_system
       [PlayRequest ''intro'', ThreadRuns 0, PlayRequest ''intro'', ThreadRuns 0]) =
     calls (run demo_env demo_system
       [PlayRequest ''intro'', ThreadRuns 0, PlayRequest ''intro''])
       @ [GetSceneList, SetCurrentProgramScene ''Preview'']
   \<and> calls (run demo_env demo_system
       [PlayRequest ''intro'', ThreadRuns 0, PlayRequest ''intro'', ThreadRuns 0, ThreadRuns 0]) =
     calls (run demo_env demo_system
       [PlayRequest ''intro'', ThreadRuns 0, PlayRequest ''intro''])
       @ [GetSceneList, SetCurrentProgramScene ''Preview'', SetCurrentPreviewScene ''Main'']
   \<and> active_timer_thread (ctl (run demo_env demo_system
       [PlayRequest ''intro'', ThreadRuns 0, PlayRequest ''intro'', ThreadRuns 0, ThreadRuns 0])) = None
   \<and> map_of (threads (run demo_env demo_system
       [PlayRequest ''intro'', ThreadRuns 0, PlayRequest ''intro'', ThreadRuns 0, ThreadRuns 0])) 1 =
       Some (TimerStarted (26 / 5) ''Preview'' (Some ''Main''))"
proof -
  have a: "active_timer_thread (ctl (run demo_env demo_system
       [PlayRequest ''intro'', ThreadRuns 0, PlayRequest ''intro''])) = Some 1"
    by code_simp
  have b: "map_of (threads (run demo_env demo_system
       [PlayRequest ''intro'', ThreadRuns 0, PlayRequest ''intro''])) 0 =
       Some (TimerSleeping ''Preview'' (Some ''Main''))"
    by code_simp
  have c: "calls (run demo_env demo_system
       [PlayRequest ''intro'', ThreadRuns 0, PlayRequest ''intro'', ThreadRuns 0]) =
     calls (run demo_env demo_system
       [PlayRequest ''intro'', ThreadRuns 0, PlayRequest ''intro''])
       @ [GetSceneList, SetCurrentProgramScene ''Preview'']"
    by code_simp
  have d: "calls (run demo_env demo_system
       [PlayRequest ''intro'', ThreadRuns 0, PlayRequest ''intro'', ThreadRuns 0, ThreadRuns 0]) =
     calls (run demo_env demo_system
       [PlayRequest ''intro'', ThreadRuns 0, PlayRequest ''intro''])
       @ [GetSceneList, SetCurrentProgramScene ''Preview'', SetCurrentPreviewScene ''Main'']"
    by code_simp
  have e: "active_timer_thread (ctl (run demo_env demo_system
       [PlayRequest ''intro'', ThreadRuns 0, PlayRequest ''intro'', ThreadRuns 0, ThreadRuns 0])) = None"
    by code_simp
  have f: "map_of (threads (run demo_env demo_system
       [PlayRequest ''intro'', ThreadRuns 0, PlayRequest ''intro'', ThreadRuns 0, ThreadRuns 0])) 1 =
       Some (TimerStarted (26 / 5) ''Preview'' (Some ''Main''))"
    by code_simp
  show ?thesis by (intro conjI a b c d e f)
qed


end
